theory Spec2Isabelle
  imports Main "HOL-Library.Multiset" "HOL-Library.Char_ord" "HOL-Library.List_Lexorder"
begin

section \<open>The Go standard library, as far as the operator uses it\<close>

text \<open>
  Package \<open>internal/dns\<close> calls three functions of the Go standard library:
  \<open>net.ParseCIDR\<close>, the method \<open>Contains\<close> of \<open>net.IPNet\<close> and \<open>sort.Strings\<close>.
  The first two are parameters of the model, collected in a record: \<open>ParseCIDR\<close> returns
  \<open>None\<close> where Go returns a non-nil error and otherwise the pair of the address and the
  network. All results below hold for every such pair of functions. \<open>sort.Strings\<close> sorts
  by the byte-wise lexicographic order of Go strings, which is the order of
  \<^typ>\<open>string\<close> given by \<open>Char_ord\<close> and \<open>List_Lexorder\<close>; on a linear order the sorted
  permutation of a list is unique, so \<^const>\<open>sort\<close> computes the same list.
\<close>

record ('ip, 'net) netlib =
  ParseCIDR :: "string \<Rightarrow> ('ip \<times> 'net) option"
  Contains :: "'net \<Rightarrow> 'ip \<Rightarrow> bool"

text \<open>
  Errors of package \<open>dns\<close>: \<open>ParseError s\<close> is the \<open>*net.ParseError\<close> of
  \<open>net.ParseCIDR\<close> on the text \<open>s\<close>; \<open>Parsing s e\<close> is
  \<open>fmt.Errorf("parsing %q: %w", s, e)\<close>; the three \<open>Invalid...\<close> constructors are the
  wrappers \<open>fmt.Errorf("invalid whitelist CIDR: %w", e)\<close>,
  \<open>fmt.Errorf("invalid blacklist CIDR: %w", e)\<close> and
  \<open>fmt.Errorf("invalid dynamic blacklist CIDR: %w", e)\<close>; \<open>ResolverError s\<close> is an error
  returned by an inner \<open>Resolver\<close>, \<open>ListError s\<close> one returned by the node listing.
\<close>

datatype error =
    ParseError string
  | Parsing string error
  | InvalidWhitelistCIDR error
  | InvalidBlacklistCIDR error
  | InvalidDynamicBlacklistCIDR error
  | ResolverError string
  | ListError string

section \<open>internal/dns/filter.go\<close>

record 'net IPFilter =
  whitelist :: "'net list"
  staticBlacklist :: "'net list"
  dynamicBlacklist :: "'net list"

text \<open>\<open>parseCIDRs\<close>: the loop appends to \<open>nets\<close> and returns at the first parse failure.\<close>

fun parseCIDRs_loop ::
  "('ip, 'net) netlib \<Rightarrow> 'net list \<Rightarrow> string list \<Rightarrow> error + 'net list" where
  "parseCIDRs_loop L nets [] = Inr nets"
| "parseCIDRs_loop L nets (cidr # rest) =
     (case ParseCIDR L cidr of
        None \<Rightarrow> Inl (Parsing cidr (ParseError cidr))
      | Some (ip, n) \<Rightarrow> parseCIDRs_loop L (nets @ [n]) rest)"

definition parseCIDRs :: "('ip, 'net) netlib \<Rightarrow> string list \<Rightarrow> error + 'net list" where
  "parseCIDRs L cidrs = parseCIDRs_loop L [] cidrs"

definition NewIPFilter ::
  "('ip, 'net) netlib \<Rightarrow> string list \<Rightarrow> string list \<Rightarrow> error + 'net IPFilter" where
  "NewIPFilter L wlist blist =
     (case parseCIDRs L wlist of
        Inl err \<Rightarrow> Inl (InvalidWhitelistCIDR err)
      | Inr wl \<Rightarrow>
          (case parseCIDRs L blist of
             Inl err \<Rightarrow> Inl (InvalidBlacklistCIDR err)
           | Inr bl \<Rightarrow>
               Inr \<lparr>whitelist = wl, staticBlacklist = bl, dynamicBlacklist = []\<rparr>))"

text \<open>
  \<open>SetDynamicBlacklist\<close> returns the error (\<open>None\<close> for \<open>nil\<close>) and the filter after the
  call; the receiver is mutated only on the path that reaches the assignment.
\<close>

definition SetDynamicBlacklist ::
  "('ip, 'net) netlib \<Rightarrow> 'net IPFilter \<Rightarrow> string list \<Rightarrow> error option \<times> 'net IPFilter" where
  "SetDynamicBlacklist L f cidrs =
     (case parseCIDRs L cidrs of
        Inl err \<Rightarrow> (Some (InvalidDynamicBlacklistCIDR err), f)
      | Inr nets \<Rightarrow> (None, f\<lparr>dynamicBlacklist := nets\<rparr>))"

text \<open>
  The loop \<open>for _, n := range ns { if n.Contains(ip) { return ... } }\<close>: true iff the
  body's \<open>return\<close> is reached.
\<close>

fun containsAny :: "('ip, 'net) netlib \<Rightarrow> 'net list \<Rightarrow> 'ip \<Rightarrow> bool" where
  "containsAny L [] ip = False"
| "containsAny L (n # ns) ip = (if Contains L n ip then True else containsAny L ns ip)"

definition IsAllowed :: "('ip, 'net) netlib \<Rightarrow> 'net IPFilter \<Rightarrow> string \<Rightarrow> bool" where
  "IsAllowed L f cidr =
     (case ParseCIDR L cidr of
        None \<Rightarrow> True
      | Some (ip, uu) \<Rightarrow>
          if containsAny L (staticBlacklist f) ip then False
          else if containsAny L (dynamicBlacklist f) ip then False
          else if length (whitelist f) > 0
               then (if containsAny L (whitelist f) ip then True else False)
               else True)"

section \<open>internal/dns/podcidr.go\<close>

text \<open>
  Of a \<open>corev1.Node\<close> the provider reads \<open>Spec.PodCIDR\<close> and \<open>Spec.PodCIDRs\<close>. The
  result of \<open>p.Client.List\<close> is an argument of \<open>refresh\<close>: the error, or the items of
  the node list. \<open>refresh\<close> returns the filter after the call and the line it logs.
\<close>

record Node =
  node_Name :: string
  PodCIDR :: string
  PodCIDRs :: "string list"

datatype provider_log =
    FailedToListNodes error
  | FailedToSetDynamicBlacklist error
  | UpdatedPodCIDRBlacklist "string list"

text \<open>The inner loop over \<open>podCIDRs\<close>, on the map \<open>seen\<close> and the slice \<open>cidrs\<close>.\<close>

fun collectCIDRs ::
  "string set \<times> string list \<Rightarrow> string list \<Rightarrow> string set \<times> string list" where
  "collectCIDRs (seen, cidrs) [] = (seen, cidrs)"
| "collectCIDRs (seen, cidrs) (cidr # rest) =
     (if cidr \<notin> seen then collectCIDRs (insert cidr seen, cidrs @ [cidr]) rest
      else collectCIDRs (seen, cidrs) rest)"

text \<open>The outer loop over \<open>nodeList.Items\<close>.\<close>

fun collectNodes ::
  "string set \<times> string list \<Rightarrow> Node list \<Rightarrow> string set \<times> string list" where
  "collectNodes acc [] = acc"
| "collectNodes acc (node # rest) =
     (let podCIDRs =
        (if length (PodCIDRs node) = 0 \<and> PodCIDR node \<noteq> [] then [PodCIDR node]
         else PodCIDRs node)
      in collectNodes (collectCIDRs acc podCIDRs) rest)"

definition refresh ::
  "('ip, 'net) netlib \<Rightarrow> 'net IPFilter \<Rightarrow> error + Node list \<Rightarrow>
   'net IPFilter \<times> provider_log" where
  "refresh L f listed =
     (case listed of
        Inl err \<Rightarrow> (f, FailedToListNodes err)
      | Inr items \<Rightarrow>
          (case collectNodes ({}, []) items of
             (seen, cidrs) \<Rightarrow>
               (case SetDynamicBlacklist L f cidrs of
                  (Some err, f') \<Rightarrow> (f', FailedToSetDynamicBlacklist err)
                | (None, f') \<Rightarrow> (f', UpdatedPodCIDRBlacklist cidrs))))"

text \<open>
  The collection the specification describes, written independently of the loops: the
  ranges of a node are its multi-range list if that is present, else its single-range
  field if that is non-empty; a list is deduplicated in first-seen order by keeping each
  element and dropping its later repetitions.
\<close>

definition spec_nodeRanges :: "Node \<Rightarrow> string list" where
  "spec_nodeRanges node =
     (if PodCIDRs node \<noteq> [] then PodCIDRs node
      else if PodCIDR node \<noteq> [] then [PodCIDR node] else [])"

fun spec_firstSeen :: "string list \<Rightarrow> string list" where
  "spec_firstSeen [] = []"
| "spec_firstSeen (x # xs) = x # filter (\<lambda>y. y \<noteq> x) (spec_firstSeen xs)"

section \<open>src/unnamed/part_002: the filter without a dynamic blacklist\<close>

record 'net IPFilter_p2 =
  whitelist_p2 :: "'net list"
  blacklist_p2 :: "'net list"

definition NewIPFilter_p2 ::
  "('ip, 'net) netlib \<Rightarrow> string list \<Rightarrow> string list \<Rightarrow> error + 'net IPFilter_p2" where
  "NewIPFilter_p2 L wlist blist =
     (case parseCIDRs L wlist of
        Inl err \<Rightarrow> Inl (InvalidWhitelistCIDR err)
      | Inr wl \<Rightarrow>
          (case parseCIDRs L blist of
             Inl err \<Rightarrow> Inl (InvalidBlacklistCIDR err)
           | Inr bl \<Rightarrow> Inr \<lparr>whitelist_p2 = wl, blacklist_p2 = bl\<rparr>))"

definition IsAllowed_p2 :: "('ip, 'net) netlib \<Rightarrow> 'net IPFilter_p2 \<Rightarrow> string \<Rightarrow> bool" where
  "IsAllowed_p2 L f cidr =
     (case ParseCIDR L cidr of
        None \<Rightarrow> False
      | Some (ip, uu) \<Rightarrow>
          if containsAny L (blacklist_p2 f) ip then False
          else if length (whitelist_p2 f) > 0
               then (if containsAny L (whitelist_p2 f) ip then True else False)
               else True)"

section \<open>src/unnamed/part_002: the filtering resolver with change detection\<close>

text \<open>
  What a call of \<open>FilteringResolver.Resolve\<close> reads and writes besides its arguments:
  the field \<open>lastSeen\<close> (a \<open>nil\<close> map and an empty map are both \<open>Map.empty\<close>; the
  method replaces \<open>nil\<close> by an empty map before reading), the two package-level counter
  vectors, each labelled by hostname, and the lines written to \<open>Logger\<close>.
\<close>

datatype log_entry =
    FilteredResolvedIP string string
  | ResolutionChangeDetected string "string list" "string list"

record resolver_state =
  lastSeen :: "string \<rightharpoonup> string list"
  ipFilteredTotal :: "string \<Rightarrow> nat"
  dnsResolutionChangesTotal :: "string \<Rightarrow> nat"
  logged :: "log_entry list"

definition copyAndSort :: "string list \<Rightarrow> string list" where
  "copyAndSort s = sort s"

text \<open>
  The loop of \<open>stringSlicesEqual\<close> reads \<open>bs[i]\<close> for every index \<open>i\<close> of \<open>a\<close>. An index
  beyond \<open>bs\<close> would panic; the length test before the loop excludes it, and the second
  equation is never reached from \<open>stringSlicesEqual\<close>.
\<close>

fun rangeEqual :: "string list \<Rightarrow> string list \<Rightarrow> bool" where
  "rangeEqual [] bs = True"
| "rangeEqual (v # a) [] = False"
| "rangeEqual (v # a) (w # bs) = (if v \<noteq> w then False else rangeEqual a bs)"

definition stringSlicesEqual :: "string list \<Rightarrow> string list \<Rightarrow> bool" where
  "stringSlicesEqual a b =
     (if length a \<noteq> length b then False else rangeEqual a (copyAndSort b))"

text \<open>The filtering loop of \<open>Resolve\<close>, with the slice \<open>allowed\<close> as accumulator.\<close>

fun filterLoop ::
  "('ip, 'net) netlib \<Rightarrow> 'net IPFilter_p2 \<Rightarrow> string \<Rightarrow> string list \<Rightarrow> resolver_state \<Rightarrow>
   string list \<Rightarrow> string list \<times> resolver_state" where
  "filterLoop L f hostname allowed st [] = (allowed, st)"
| "filterLoop L f hostname allowed st (cidr # rest) =
     (if IsAllowed_p2 L f cidr then filterLoop L f hostname (allowed @ [cidr]) st rest
      else filterLoop L f hostname allowed
             (st\<lparr>logged := logged st @ [FilteredResolvedIP hostname cidr],
                 ipFilteredTotal :=
                   (ipFilteredTotal st)(hostname := ipFilteredTotal st hostname + 1)\<rparr>)
             rest)"

text \<open>
  \<open>Resolve\<close> takes the inner resolver as the function it is at the time of the call, and
  returns the result of the call together with the state after it.
\<close>

definition detectChange :: "resolver_state \<Rightarrow> string \<Rightarrow> string list \<Rightarrow> resolver_state" where
  "detectChange st hostname allowed =
     (let st1 =
        (case lastSeen st hostname of
           None \<Rightarrow> st
         | Some prev \<Rightarrow>
             if \<not> stringSlicesEqual prev allowed
             then st\<lparr>logged := logged st @ [ResolutionChangeDetected hostname prev allowed],
                     dnsResolutionChangesTotal :=
                       (dnsResolutionChangesTotal st)
                         (hostname := dnsResolutionChangesTotal st hostname + 1)\<rparr>
             else st)
      in st1\<lparr>lastSeen := (lastSeen st1)(hostname \<mapsto> copyAndSort allowed)\<rparr>)"

definition Resolve ::
  "('ip, 'net) netlib \<Rightarrow> 'net IPFilter_p2 \<Rightarrow> (string \<Rightarrow> error + string list) \<Rightarrow>
   resolver_state \<Rightarrow> string \<Rightarrow> (error + string list) \<times> resolver_state" where
  "Resolve L f inner st hostname =
     (case inner hostname of
        Inl err \<Rightarrow> (Inl err, st)
      | Inr cidrs \<Rightarrow>
          (case filterLoop L f hostname [] st cidrs of
             (allowed, st1) \<Rightarrow> (Inr allowed, detectChange st1 hostname allowed)))"

text \<open>
  A sequence of calls on one resolver: each call names the hostname and brings the inner
  resolver as it answers at that moment.
\<close>

fun resolveAll ::
  "('ip, 'net) netlib \<Rightarrow> 'net IPFilter_p2 \<Rightarrow> resolver_state \<Rightarrow>
   ((string \<Rightarrow> error + string list) \<times> string) list \<Rightarrow> resolver_state" where
  "resolveAll L f st [] = st"
| "resolveAll L f st ((inner, hostname) # calls) =
     resolveAll L f (snd (Resolve L f inner st hostname)) calls"

text \<open>
  The filtered list of the most recent call for \<open>hostname\<close> in a sequence of calls on
  which the inner resolver succeeded, written independently of the state: \<open>None\<close> when
  no such call exists.
\<close>

fun spec_previous ::
  "('ip, 'net) netlib \<Rightarrow> 'net IPFilter_p2 \<Rightarrow>
   ((string \<Rightarrow> error + string list) \<times> string) list \<Rightarrow> string \<Rightarrow> string list option" where
  "spec_previous L f [] hostname = None"
| "spec_previous L f ((inner, k) # calls) hostname =
     (case spec_previous L f calls hostname of
        Some allowed \<Rightarrow> Some allowed
      | None \<Rightarrow>
          if k = hostname
          then (case inner hostname of
                  Inl err \<Rightarrow> None
                | Inr cidrs \<Rightarrow> Some (filter (IsAllowed_p2 L f) cidrs))
          else None)"

text \<open>
  A resolver as \<open>cmd/main.go\<close> constructs it (\<open>lastSeen\<close> is \<open>nil\<close>) in a process whose
  counters have not been incremented yet, and the \<open>stubResolver\<close> of the package's test
  file, whose \<open>results\<close> map yields the \<open>nil\<close> slice for a hostname it does not hold;
  \<open>resultsFor\<close> is a \<open>results\<close> map with one entry, as the tests build it.
\<close>

definition newResolverState :: resolver_state where
  "newResolverState =
     \<lparr>lastSeen = Map.empty, ipFilteredTotal = (\<lambda>h. 0),
      dnsResolutionChangesTotal = (\<lambda>h. 0), logged = []\<rparr>"

definition resultsFor :: "string \<Rightarrow> string list \<Rightarrow> (string \<rightharpoonup> string list)" where
  "resultsFor hostname cidrs = [hostname \<mapsto> cidrs]"

definition stubResolver ::
  "(string \<rightharpoonup> string list) \<Rightarrow> error option \<Rightarrow> string \<Rightarrow> error + string list" where
  "stubResolver results err hostname =
     (case err of
        Some e \<Rightarrow> Inl e
      | None \<Rightarrow> Inr (case results hostname of None \<Rightarrow> [] | Some r \<Rightarrow> r))"

section \<open>api/v1alpha1 (src/unnamed/part_000) and the objects of networking.k8s.io/v1\<close>

text \<open>
  The custom resource and the standard resource have types of the same names in two API
  groups; the fields of the custom one carry the prefix \<open>anp_\<close> (the controller's variable
  for it), those of the standard one \<open>np_\<close>. A pointer field is an \<open>option\<close>. The label
  selector is passed through unread, so its type is a parameter. \<open>corev1.Protocol\<close> and
  \<open>networkingv1.PolicyType\<close> are string types. A \<open>metav1.Duration\<close> and a
  \<open>metav1.Time\<close> are integers (nanoseconds). An object is stored under the pair of its
  namespace and name. The spec of the standard policy is held in full, with the ingress
  rules and the selectors of a peer that the controller leaves \<open>nil\<close>, since the
  controller compares whole specs. Of the metadata the records hold the name, the
  namespace and, of an owner reference, the kind, the name and the controller flag.
\<close>

datatype IntOrString = IntVal int | StrVal string

record anp_NetworkPolicyPort =
  anp_Protocol :: "string option"
  anp_Port :: "IntOrString option"
  anp_EndPort :: "int option"

record EgressPeer =
  Hostname :: string

record EgressRule =
  anp_Ports :: "anp_NetworkPolicyPort list"
  anp_To :: "EgressPeer list"

record 'sel anp_NetworkPolicySpec =
  anp_PodSelector :: 'sel
  anp_Egress :: "EgressRule list"
  anp_PolicyTypes :: "string list"
  ResolutionInterval :: "int option"

record Condition =
  cond_Type :: string
  cond_Status :: string
  ObservedGeneration :: int
  LastTransitionTime :: int
  Reason :: string
  Message :: string

record NetworkPolicyStatus =
  Conditions :: "Condition list"
  ResolvedAddresses :: "string \<rightharpoonup> string list"

record 'sel anp_NetworkPolicy =
  anp_Name :: string
  anp_Namespace :: string
  anp_Generation :: int
  anp_Spec :: "'sel anp_NetworkPolicySpec"
  anp_Status :: NetworkPolicyStatus

record IPBlock =
  CIDR :: string
  Except :: "string list"

record 'sel NetworkPolicyPeer =
  peer_PodSelector :: "'sel option"
  peer_NamespaceSelector :: "'sel option"
  peer_IPBlock :: "IPBlock option"

record np_NetworkPolicyPort =
  np_Protocol :: "string option"
  np_Port :: "IntOrString option"
  np_EndPort :: "int option"

record 'sel NetworkPolicyIngressRule =
  ingress_Ports :: "np_NetworkPolicyPort list"
  ingress_From :: "'sel NetworkPolicyPeer list"

record 'sel NetworkPolicyEgressRule =
  np_Ports :: "np_NetworkPolicyPort list"
  np_To :: "'sel NetworkPolicyPeer list"

record 'sel np_NetworkPolicySpec =
  np_PodSelector :: 'sel
  np_Ingress :: "'sel NetworkPolicyIngressRule list"
  np_Egress :: "'sel NetworkPolicyEgressRule list"
  np_PolicyTypes :: "string list"

record OwnerReference =
  owner_Kind :: string
  owner_Name :: string
  owner_Controller :: bool

record 'sel np_NetworkPolicy =
  np_Name :: string
  np_Namespace :: string
  np_OwnerReferences :: "OwnerReference list"
  np_Spec :: "'sel np_NetworkPolicySpec"

section \<open>internal/controller/networkpolicy_controller.go\<close>

text \<open>
  What \<open>Reconcile\<close> reads and writes: the custom and the standard policies held by the
  API server, and the three counters of \<open>metrics.go\<close>. The API server stores what
  \<open>Create\<close> and \<open>Update\<close> hand it and \<open>Get\<close> returns what is stored;
  \<open>equality.Semantic.DeepEqual\<close> on two specs, which treats a \<open>nil\<close> and an empty slice
  alike, is equality of the records, in which both are \<open>[]\<close>.
\<close>

record 'sel cluster =
  customPolicies :: "string \<times> string \<rightharpoonup> 'sel anp_NetworkPolicy"
  standardPolicies :: "string \<times> string \<rightharpoonup> 'sel np_NetworkPolicy"
  networkPolicyCreations :: nat
  networkPolicyDeletions :: nat
  dnsNameChanges :: nat

text \<open>
  The calls of one pass that can fail for reasons outside the model, each with the text of
  the error it returns on this pass, if any: the two \<open>Get\<close> calls (an error other than
  not-found; not-found is decided by the store), \<open>SetControllerReference\<close>, \<open>Create\<close>,
  \<open>Update\<close> and the status update. An error value is the text of its \<open>Error\<close> method.
\<close>

record client_faults =
  getCustomErr :: "string option"
  setOwnerErr :: "string option"
  getStandardErr :: "string option"
  createErr :: "string option"
  updateErr :: "string option"
  statusUpdateErr :: "string option"

definition noFaults :: client_faults where
  "noFaults =
     \<lparr>getCustomErr = None, setOwnerErr = None, getStandardErr = None, createErr = None,
      updateErr = None, statusUpdateErr = None\<rparr>"

record Result =
  RequeueAfter :: int

definition defaultResolutionInterval :: int where
  "defaultResolutionInterval = 5 * 60 * 1000000000"

definition minResolutionInterval :: int where
  "minResolutionInterval = 30 * 1000000000"

definition conditionTypeReady :: string where
  "conditionTypeReady = ''Ready''"

text \<open>The loop \<open>for _, cidr := range cidrs\<close> appending one peer per address.\<close>

fun appendPeers ::
  "'sel NetworkPolicyPeer list \<Rightarrow> string list \<Rightarrow> 'sel NetworkPolicyPeer list" where
  "appendPeers peers [] = peers"
| "appendPeers peers (cidr # rest) =
     appendPeers
       (peers @ [\<lparr>peer_PodSelector = None, peer_NamespaceSelector = None,
                  peer_IPBlock = Some \<lparr>CIDR = cidr, Except = []\<rparr>\<rparr>])
       rest"

text \<open>
  The loop \<open>for _, to := range rule.To\<close>. The resolver \<open>R\<close> is the \<open>Resolve\<close> method of
  \<open>r.Resolver\<close> during this pass, a function of the hostname: it yields the text of the
  error or the addresses, and the same answer when a pass asks for a hostname twice. \<open>q\<close>
  is the quoting of the verb \<open>%q\<close> (\<open>strconv.Quote\<close>). The accumulator holds \<open>peers\<close>,
  \<open>resolvedAddresses\<close> and \<open>resolutionErrors\<close>.
\<close>

fun resolveTo ::
  "(string \<Rightarrow> string) \<Rightarrow> (string \<Rightarrow> string + string list) \<Rightarrow> EgressPeer list \<Rightarrow>
   'sel NetworkPolicyPeer list \<times> (string \<rightharpoonup> string list) \<times> string list \<Rightarrow>
   'sel NetworkPolicyPeer list \<times> (string \<rightharpoonup> string list) \<times> string list" where
  "resolveTo q R [] acc = acc"
| "resolveTo q R (to # rest) (peers, resolvedAddresses, resolutionErrors) =
     (case R (Hostname to) of
        Inl err \<Rightarrow>
          resolveTo q R rest
            (peers, resolvedAddresses,
             resolutionErrors @ [''failed to resolve '' @ q (Hostname to) @ '': '' @ err])
      | Inr cidrs \<Rightarrow>
          resolveTo q R rest
            (appendPeers peers cidrs, resolvedAddresses(Hostname to \<mapsto> cidrs),
             resolutionErrors))"

text \<open>The loop \<open>for _, p := range rule.Ports\<close>.\<close>

fun convertPorts ::
  "np_NetworkPolicyPort list \<Rightarrow> anp_NetworkPolicyPort list \<Rightarrow> np_NetworkPolicyPort list" where
  "convertPorts ports [] = ports"
| "convertPorts ports (p # rest) =
     convertPorts
       (ports @ [\<lparr>np_Protocol = anp_Protocol p, np_Port = anp_Port p,
                  np_EndPort = anp_EndPort p\<rparr>])
       rest"

text \<open>
  The loop \<open>for _, rule := range anp.Spec.Egress\<close>, on \<open>egressRules\<close>,
  \<open>resolvedAddresses\<close> and \<open>resolutionErrors\<close>.
\<close>

fun egressLoop ::
  "(string \<Rightarrow> string) \<Rightarrow> (string \<Rightarrow> string + string list) \<Rightarrow> EgressRule list \<Rightarrow>
   'sel NetworkPolicyEgressRule list \<times> (string \<rightharpoonup> string list) \<times> string list \<Rightarrow>
   'sel NetworkPolicyEgressRule list \<times> (string \<rightharpoonup> string list) \<times> string list" where
  "egressLoop q R [] acc = acc"
| "egressLoop q R (rule # rest) (egressRules, resolvedAddresses, resolutionErrors) =
     (case resolveTo q R (anp_To rule) ([], resolvedAddresses, resolutionErrors) of
        (peers, resolvedAddresses', resolutionErrors') \<Rightarrow>
          egressLoop q R rest
            (egressRules @ [\<lparr>np_Ports = convertPorts [] (anp_Ports rule), np_To = peers\<rparr>],
             resolvedAddresses', resolutionErrors'))"

text \<open>The verb \<open>%v\<close> on a slice of strings: the elements between brackets, separated by spaces.\<close>

fun joinSpace :: "string list \<Rightarrow> string" where
  "joinSpace [] = []"
| "joinSpace [x] = x"
| "joinSpace (x # y # zs) = x @ '' '' @ joinSpace (y # zs)"

definition fmt_v :: "string list \<Rightarrow> string" where
  "fmt_v xs = ''['' @ joinSpace xs @ '']''"

fun setCondition :: "Condition list \<Rightarrow> Condition \<Rightarrow> Condition list" where
  "setCondition [] condition = [condition]"
| "setCondition (existing # rest) condition =
     (if cond_Type existing = cond_Type condition
      then (if cond_Status existing \<noteq> cond_Status condition then condition # rest
            else condition\<lparr>LastTransitionTime := LastTransitionTime existing\<rparr> # rest)
      else existing # setCondition rest condition)"

definition readyCondition :: "int \<Rightarrow> int \<Rightarrow> string list \<Rightarrow> Condition" where
  "readyCondition generation now resolutionErrors =
     (if length resolutionErrors > 0
      then \<lparr>cond_Type = conditionTypeReady, cond_Status = ''False'',
            ObservedGeneration = generation, LastTransitionTime = now,
            Reason = ''ResolutionFailed'',
            Message = ''failed to resolve some hostnames: '' @ fmt_v resolutionErrors\<rparr>
      else \<lparr>cond_Type = conditionTypeReady, cond_Status = ''True'',
            ObservedGeneration = generation, LastTransitionTime = now,
            Reason = ''Reconciled'',
            Message = ''All hostnames resolved successfully''\<rparr>)"

definition requeueInterval :: "'sel anp_NetworkPolicySpec \<Rightarrow> int" where
  "requeueInterval spec =
     (let interval =
        (case ResolutionInterval spec of None \<Rightarrow> defaultResolutionInterval | Some d \<Rightarrow> d)
      in if interval < minResolutionInterval then minResolutionInterval else interval)"

text \<open>The part \<open>Create or update the standard NetworkPolicy\<close>.\<close>

definition applyDesired ::
  "client_faults \<Rightarrow> 'sel cluster \<Rightarrow> 'sel np_NetworkPolicy \<Rightarrow> string + 'sel cluster" where
  "applyDesired flt c desired =
     (let key = (np_Namespace desired, np_Name desired)
      in case getStandardErr flt of
           Some err \<Rightarrow> Inl (''failed to get existing NetworkPolicy: '' @ err)
         | None \<Rightarrow>
             (case standardPolicies c key of
                None \<Rightarrow>
                  (case createErr flt of
                     Some err \<Rightarrow> Inl (''failed to create NetworkPolicy: '' @ err)
                   | None \<Rightarrow>
                       Inr (c\<lparr>standardPolicies := (standardPolicies c)(key \<mapsto> desired),
                               networkPolicyCreations := networkPolicyCreations c + 1\<rparr>))
              | Some existing \<Rightarrow>
                  if np_Spec existing \<noteq> np_Spec desired
                  then (case updateErr flt of
                          Some err \<Rightarrow> Inl (''failed to update NetworkPolicy: '' @ err)
                        | None \<Rightarrow>
                            Inr (c\<lparr>standardPolicies :=
                                      (standardPolicies c)
                                        (key \<mapsto> existing\<lparr>np_Spec := np_Spec desired\<rparr>),
                                    dnsNameChanges := dnsNameChanges c + 1\<rparr>))
                  else Inr c))"

text \<open>
  One pass of \<open>Reconcile\<close> for the request \<open>req\<close> at time \<open>now\<close>: the returned error or
  result, and the cluster and counters after the pass.
\<close>

definition Reconcile ::
  "(string \<Rightarrow> string) \<Rightarrow> (string \<Rightarrow> string + string list) \<Rightarrow> int \<Rightarrow> client_faults \<Rightarrow>
   'sel cluster \<Rightarrow> string \<times> string \<Rightarrow> (string + Result) \<times> 'sel cluster" where
  "Reconcile q R now flt c req =
     (case getCustomErr flt of
        Some err \<Rightarrow> (Inl (''failed to get NetworkPolicy: '' @ err), c)
      | None \<Rightarrow>
          (case customPolicies c req of
             None \<Rightarrow>
               (Inr \<lparr>RequeueAfter = 0\<rparr>,
                c\<lparr>networkPolicyDeletions := networkPolicyDeletions c + 1\<rparr>)
           | Some anp \<Rightarrow>
               (case egressLoop q R (anp_Egress (anp_Spec anp)) ([], Map.empty, []) of
                  (egressRules, resolvedAddresses, resolutionErrors) \<Rightarrow>
                    (case setOwnerErr flt of
                       Some err \<Rightarrow> (Inl (''failed to set owner reference: '' @ err), c)
                     | None \<Rightarrow>
                         (case applyDesired flt c
                                 \<lparr>np_Name = anp_Name anp, np_Namespace = anp_Namespace anp,
                                  np_OwnerReferences =
                                    [\<lparr>owner_Kind = ''NetworkPolicy'',
                                      owner_Name = anp_Name anp, owner_Controller = True\<rparr>],
                                  np_Spec =
                                    \<lparr>np_PodSelector = anp_PodSelector (anp_Spec anp),
                                     np_Ingress = [],
                                     np_Egress = egressRules,
                                     np_PolicyTypes = anp_PolicyTypes (anp_Spec anp)\<rparr>\<rparr> of
                            Inl err \<Rightarrow> (Inl err, c)
                          | Inr c1 \<Rightarrow>
                              (case statusUpdateErr flt of
                                 Some err \<Rightarrow> (Inl (''failed to update status: '' @ err), c1)
                               | None \<Rightarrow>
                                   (Inr \<lparr>RequeueAfter = requeueInterval (anp_Spec anp)\<rparr>,
                                    c1\<lparr>customPolicies :=
                                         (customPolicies c1)
                                           ((anp_Namespace anp, anp_Name anp) \<mapsto>
                                              anp\<lparr>anp_Status :=
                                                    \<lparr>Conditions =
                                                       setCondition
                                                         (Conditions (anp_Status anp))
                                                         (readyCondition (anp_Generation anp)
                                                            now resolutionErrors),
                                                     ResolvedAddresses =
                                                       resolvedAddresses\<rparr>\<rparr>)\<rparr>)))))))"

text \<open>
  The derived rule the specification describes, written independently of the loops: the
  ports of the source rule, field by field, and one peer that is an address block and
  nothing else for each address of each hostname that resolves, none for a hostname that
  does not.
\<close>

definition spec_port :: "anp_NetworkPolicyPort \<Rightarrow> np_NetworkPolicyPort" where
  "spec_port p = \<lparr>np_Protocol = anp_Protocol p, np_Port = anp_Port p, np_EndPort = anp_EndPort p\<rparr>"

definition spec_peers ::
  "(string \<Rightarrow> string + string list) \<Rightarrow> EgressPeer \<Rightarrow> 'sel NetworkPolicyPeer list" where
  "spec_peers R to =
     (case R (Hostname to) of
        Inl err \<Rightarrow> []
      | Inr cidrs \<Rightarrow>
          map (\<lambda>cidr. \<lparr>peer_PodSelector = None, peer_NamespaceSelector = None,
                       peer_IPBlock = Some \<lparr>CIDR = cidr, Except = []\<rparr>\<rparr>) cidrs)"

definition spec_rule ::
  "(string \<Rightarrow> string + string list) \<Rightarrow> EgressRule \<Rightarrow> 'sel NetworkPolicyEgressRule" where
  "spec_rule R rule =
     \<lparr>np_Ports = map spec_port (anp_Ports rule),
      np_To = concat (map (spec_peers R) (anp_To rule))\<rparr>"

text \<open>The hostnames of a source policy, in the order in which a pass resolves them.\<close>

definition hostnames :: "'sel anp_NetworkPolicy \<Rightarrow> string list" where
  "hostnames anp = concat (map (\<lambda>rule. map Hostname (anp_To rule)) (anp_Egress (anp_Spec anp)))"

text \<open>
  The messages of the hostnames that do not resolve and the map of those that do, as
  functions of the list of hostnames; the standard policy a pass wants to exist.
\<close>

definition spec_failures ::
  "(string \<Rightarrow> string) \<Rightarrow> (string \<Rightarrow> string + string list) \<Rightarrow> string list \<Rightarrow> string list" where
  "spec_failures q R hs =
     concat (map (\<lambda>h. case R h of
                          Inl err \<Rightarrow> [''failed to resolve '' @ q h @ '': '' @ err]
                        | Inr cidrs \<Rightarrow> []) hs)"

definition spec_resolved ::
  "(string \<Rightarrow> string + string list) \<Rightarrow> string list \<Rightarrow> (string \<rightharpoonup> string list)" where
  "spec_resolved R hs =
     (\<lambda>h. if h \<in> set hs then (case R h of Inl err \<Rightarrow> None | Inr cidrs \<Rightarrow> Some cidrs)
          else None)"

definition spec_desired ::
  "(string \<Rightarrow> string + string list) \<Rightarrow> 'sel anp_NetworkPolicy \<Rightarrow> 'sel np_NetworkPolicy" where
  "spec_desired R anp =
     \<lparr>np_Name = anp_Name anp, np_Namespace = anp_Namespace anp,
      np_OwnerReferences =
        [\<lparr>owner_Kind = ''NetworkPolicy'', owner_Name = anp_Name anp, owner_Controller = True\<rparr>],
      np_Spec =
        \<lparr>np_PodSelector = anp_PodSelector (anp_Spec anp),
         np_Ingress = [],
         np_Egress = map (spec_rule R) (anp_Egress (anp_Spec anp)),
         np_PolicyTypes = anp_PolicyTypes (anp_Spec anp)\<rparr>\<rparr>"

section \<open>Fixtures\<close>

text \<open>
  For evaluating a pass at concrete inputs. The policy is \<open>test-policy\<close> of the
  controller's test with two more peers; its label selector is the list of its
  \<open>matchLabels\<close>. The resolver answers for \<open>example.com\<close> and \<open>api.example.com\<close> as the
  test's \<open>MockResolver\<close> does and fails for every other hostname; \<open>MockResolver\<close> itself
  is the test double of package \<open>dns\<close>, which fails for every hostname when its \<open>Err\<close> is
  set. \<open>quotePlain\<close> is
  \<open>strconv.Quote\<close> on printable ASCII text without a quote or a backslash, where it only
  adds the enclosing quotes (character \<open>0x22\<close>).
\<close>

definition MockResolver ::
  "(string \<rightharpoonup> string list) \<Rightarrow> string option \<Rightarrow> string \<Rightarrow> string + string list" where
  "MockResolver results err hostname =
     (case err of
        Some e \<Rightarrow> Inl e
      | None \<Rightarrow> (case results hostname of Some result \<Rightarrow> Inr result | None \<Rightarrow> Inr []))"

definition quotePlain :: "string \<Rightarrow> string" where
  "quotePlain s = CHR 0x22 # s @ [CHR 0x22]"

definition exampleResolver :: "string \<Rightarrow> string + string list" where
  "exampleResolver hostname =
     (if hostname = ''example.com'' then Inr [''93.184.216.34/32'']
      else if hostname = ''api.example.com'' then Inr [''93.184.216.35/32'', ''93.184.216.36/32'']
      else Inl ''no such host'')"

definition examplePolicy :: "(string \<times> string) list anp_NetworkPolicy" where
  "examplePolicy =
     \<lparr>anp_Name = ''test-policy'', anp_Namespace = ''default'', anp_Generation = 1,
      anp_Spec =
        \<lparr>anp_PodSelector = [(''app'', ''web'')],
         anp_Egress =
           [\<lparr>anp_Ports =
               [\<lparr>anp_Protocol = Some ''TCP'', anp_Port = Some (IntVal 443),
                 anp_EndPort = None\<rparr>],
             anp_To =
               [\<lparr>Hostname = ''example.com''\<rparr>, \<lparr>Hostname = ''down.example.com''\<rparr>,
                \<lparr>Hostname = ''api.example.com''\<rparr>]\<rparr>],
         anp_PolicyTypes = [''Egress''],
         ResolutionInterval = None\<rparr>,
      anp_Status = \<lparr>Conditions = [], ResolvedAddresses = Map.empty\<rparr>\<rparr>"

definition exampleCluster :: "(string \<times> string) list cluster" where
  "exampleCluster =
     \<lparr>customPolicies = [(''default'', ''test-policy'') \<mapsto> examplePolicy],
      standardPolicies = Map.empty,
      networkPolicyCreations = 0, networkPolicyDeletions = 0, dnsNameChanges = 0\<rparr>"

section \<open>An IPv4 instance of the library parameters\<close>

text \<open>
  For evaluating the model at concrete inputs: \<open>net.ParseCIDR\<close> and \<open>Contains\<close> on
  dotted-decimal IPv4 text. An address is its 32-bit value, a network is the pair of the
  masked address and the prefix length. As in Go, \<open>strings.Cut(s, "/")\<close> splits at the
  first slash, an octet is one to three decimal digits without a leading zero and at most
  255, and the prefix length is a non-empty decimal number of at most 32. IPv6 text is
  outside this instance.
\<close>

definition digit :: "char \<Rightarrow> int option" where
  "digit c = (let k = (of_char c :: int) in if 48 \<le> k \<and> k \<le> 57 then Some (k - 48) else None)"

fun dtoi_loop :: "int \<Rightarrow> string \<Rightarrow> int option" where
  "dtoi_loop acc [] = Some acc"
| "dtoi_loop acc (c # cs) =
     (case digit c of None \<Rightarrow> None | Some d \<Rightarrow> dtoi_loop (acc * 10 + d) cs)"

definition dtoi :: "string \<Rightarrow> int option" where
  "dtoi s = (if s = [] then None else dtoi_loop 0 s)"

definition octet :: "string \<Rightarrow> int option" where
  "octet s =
     (case dtoi s of
        None \<Rightarrow> None
      | Some v \<Rightarrow>
          if 3 < length s \<or> 255 < v \<or> (1 < length s \<and> hd s = CHR ''0'') then None
          else Some v)"

fun fields :: "char \<Rightarrow> string \<Rightarrow> string \<Rightarrow> string list" where
  "fields sep cur [] = [rev cur]"
| "fields sep cur (c # cs) =
     (if c = sep then rev cur # fields sep [] cs else fields sep (c # cur) cs)"

fun octets_value :: "int \<Rightarrow> string list \<Rightarrow> int option" where
  "octets_value acc [] = Some acc"
| "octets_value acc (f # fs) =
     (case octet f of None \<Rightarrow> None | Some v \<Rightarrow> octets_value (acc * 256 + v) fs)"

definition parseIPv4 :: "string \<Rightarrow> int option" where
  "parseIPv4 s =
     (let fs = fields (CHR ''.'') [] s
      in if length fs = 4 then octets_value 0 fs else None)"

definition parseCIDR4 :: "string \<Rightarrow> (int \<times> (int \<times> int)) option" where
  "parseCIDR4 s =
     (if CHR ''/'' \<notin> set s then None
      else
        let addr = takeWhile (\<lambda>c. c \<noteq> CHR ''/'') s;
            mask = tl (dropWhile (\<lambda>c. c \<noteq> CHR ''/'') s)
        in case parseIPv4 addr of
             None \<Rightarrow> None
           | Some ip \<Rightarrow>
               (case dtoi mask of
                  None \<Rightarrow> None
                | Some n \<Rightarrow>
                    if 32 < n then None
                    else Some (ip, (ip div 2 ^ nat (32 - n) * 2 ^ nat (32 - n), n))))"

definition contains4 :: "int \<times> int \<Rightarrow> int \<Rightarrow> bool" where
  "contains4 net ip = (case net of (base, n) \<Rightarrow> ip div 2 ^ nat (32 - n) = base div 2 ^ nat (32 - n))"

definition ipv4lib :: "(int, int \<times> int) netlib" where
  "ipv4lib = \<lparr>ParseCIDR = parseCIDR4, Contains = contains4\<rparr>"

section \<open>Properties of the address filter\<close>

lemma containsAny_iff: "containsAny L ns ip \<longleftrightarrow> (\<exists>n\<in>set ns. Contains L n ip)"
  by (induction ns) auto

lemma parseCIDRs_loop_ok:
  "list_all2 (\<lambda>c n. \<exists>ip. ParseCIDR L c = Some (ip, n)) cidrs ns \<Longrightarrow>
   parseCIDRs_loop L nets cidrs = Inr (nets @ ns)"
proof (induction cidrs arbitrary: nets ns)
  case Nil
  then show ?case by simp
next
  case (Cons c cs)
  then obtain n ns' ip where ns: "ns = n # ns'" and p: "ParseCIDR L c = Some (ip, n)"
    and rest: "list_all2 (\<lambda>c n. \<exists>ip. ParseCIDR L c = Some (ip, n)) cs ns'"
    by (auto simp: list_all2_Cons1)
  from Cons.IH[OF rest, of "nets @ [n]"] p ns show ?case by simp
qed

lemma parseCIDRs_loop_Inr:
  "parseCIDRs_loop L nets cidrs = Inr res \<Longrightarrow>
   \<exists>ns. res = nets @ ns \<and> list_all2 (\<lambda>c n. \<exists>ip. ParseCIDR L c = Some (ip, n)) cidrs ns"
proof (induction cidrs arbitrary: nets)
  case Nil
  then show ?case by simp
next
  case (Cons c cs)
  show ?case
  proof (cases "ParseCIDR L c")
    case None
    with Cons.prems show ?thesis by simp
  next
    case (Some a)
    obtain ip n where a: "a = (ip, n)" by (cases a)
    with Some Cons.prems have "parseCIDRs_loop L (nets @ [n]) cs = Inr res" by simp
    from Cons.IH[OF this] obtain ns where "res = (nets @ [n]) @ ns"
      and "list_all2 (\<lambda>c n. \<exists>ip. ParseCIDR L c = Some (ip, n)) cs ns" by blast
    with Some a show ?thesis by (intro exI[of _ "n # ns"]) simp
  qed
qed

lemma parseCIDRs_loop_fail:
  "\<exists>c\<in>set cidrs. ParseCIDR L c = None \<Longrightarrow> \<exists>e. parseCIDRs_loop L nets cidrs = Inl e"
  by (induction cidrs arbitrary: nets) (auto split: option.splits)

lemma parseCIDRs_Inr_iff:
  "parseCIDRs L cidrs = Inr ns \<longleftrightarrow>
   list_all2 (\<lambda>c n. \<exists>ip. ParseCIDR L c = Some (ip, n)) cidrs ns"
  unfolding parseCIDRs_def
  using parseCIDRs_loop_ok[of L cidrs ns "[]"] parseCIDRs_loop_Inr[of L "[]" cidrs ns]
  by auto

lemma parseCIDRs_fail:
  "\<exists>c\<in>set cidrs. ParseCIDR L c = None \<Longrightarrow> \<exists>e. parseCIDRs L cidrs = Inl e"
  unfolding parseCIDRs_def by (rule parseCIDRs_loop_fail)

text \<open>
  Claim C1. For an address \<open>a\<close> that \<open>net.ParseCIDR\<close> accepts, with \<open>ip\<close> the parsed
  address: if some entry of the static or of the dynamic blacklist contains \<open>ip\<close> then
  \<open>IsAllowed\<close> is false, whatever the whitelist holds; with an empty whitelist
  \<open>IsAllowed\<close> is true exactly when no blacklist entry contains \<open>ip\<close>; with a non-empty
  whitelist \<open>IsAllowed\<close> is true exactly when some whitelist entry contains \<open>ip\<close> and no
  blacklist entry does.
\<close>

theorem IsAllowed_decision:
  assumes "ParseCIDR L a = Some (ip, n0)"
  shows "((\<exists>n\<in>set (staticBlacklist f @ dynamicBlacklist f). Contains L n ip) \<longrightarrow>
            \<not> IsAllowed L f a) \<and>
         (whitelist f = [] \<longrightarrow>
            (IsAllowed L f a \<longleftrightarrow>
               \<not> (\<exists>n\<in>set (staticBlacklist f @ dynamicBlacklist f). Contains L n ip))) \<and>
         (whitelist f \<noteq> [] \<longrightarrow>
            (IsAllowed L f a \<longleftrightarrow>
               (\<exists>n\<in>set (whitelist f). Contains L n ip) \<and>
               \<not> (\<exists>n\<in>set (staticBlacklist f @ dynamicBlacklist f). Contains L n ip)))"
  using assms by (auto simp: IsAllowed_def containsAny_iff)

theorem IsAllowed_decision_witness:
  "ParseCIDR ipv4lib ''10.0.1.5/32'' = Some (167772421, (167772421, 32)) \<and>
   Contains ipv4lib (167772416, 24) 167772421 \<and>
   \<not> IsAllowed ipv4lib
      \<lparr>whitelist = [(167772160, 8)], staticBlacklist = [],
       dynamicBlacklist = [(167772416, 24)]\<rparr> ''10.0.1.5/32'' \<and>
   ParseCIDR ipv4lib ''8.8.8.8/32'' = Some (134744072, (134744072, 32)) \<and>
   \<not> Contains ipv4lib (2130706432, 8) 134744072 \<and>
   IsAllowed ipv4lib
      \<lparr>whitelist = [], staticBlacklist = [(2130706432, 8)], dynamicBlacklist = []\<rparr>
      ''8.8.8.8/32'' \<and>
   ParseCIDR ipv4lib ''10.0.2.5/32'' = Some (167772677, (167772677, 32)) \<and>
   Contains ipv4lib (167772160, 8) 167772677 \<and>
   \<not> Contains ipv4lib (167772416, 24) 167772677 \<and>
   IsAllowed ipv4lib
      \<lparr>whitelist = [(167772160, 8)], staticBlacklist = [(167772416, 24)],
       dynamicBlacklist = []\<rparr> ''10.0.2.5/32''"
proof -
  have p1: "ParseCIDR ipv4lib ''10.0.1.5/32'' = Some (167772421, (167772421, 32))"
    by code_simp
  have c1: "Contains ipv4lib (167772416, 24) 167772421" by code_simp
  have p2: "ParseCIDR ipv4lib ''8.8.8.8/32'' = Some (134744072, (134744072, 32))"
    by code_simp
  have c2: "\<not> Contains ipv4lib (2130706432, 8) 134744072" by code_simp
  have p3: "ParseCIDR ipv4lib ''10.0.2.5/32'' = Some (167772677, (167772677, 32))"
    by code_simp
  have c3: "Contains ipv4lib (167772160, 8) 167772677" by code_simp
  have c4: "\<not> Contains ipv4lib (167772416, 24) 167772677" by code_simp
  have r1: "\<not> IsAllowed ipv4lib
      \<lparr>whitelist = [(167772160, 8)], staticBlacklist = [],
       dynamicBlacklist = [(167772416, 24)]\<rparr> ''10.0.1.5/32''"
    using IsAllowed_decision[OF p1,
        of "\<lparr>whitelist = [(167772160, 8)], staticBlacklist = [],
             dynamicBlacklist = [(167772416, 24)]\<rparr>"] c1
    by simp
  have r2: "IsAllowed ipv4lib
      \<lparr>whitelist = [], staticBlacklist = [(2130706432, 8)], dynamicBlacklist = []\<rparr>
      ''8.8.8.8/32''"
    using IsAllowed_decision[OF p2,
        of "\<lparr>whitelist = [], staticBlacklist = [(2130706432, 8)],
             dynamicBlacklist = []\<rparr>"] c2
    by simp
  have r3: "IsAllowed ipv4lib
      \<lparr>whitelist = [(167772160, 8)], staticBlacklist = [(167772416, 24)],
       dynamicBlacklist = []\<rparr> ''10.0.2.5/32''"
    using IsAllowed_decision[OF p3,
        of "\<lparr>whitelist = [(167772160, 8)], staticBlacklist = [(167772416, 24)],
             dynamicBlacklist = []\<rparr>"] c3 c4
    by simp
  from p1 c1 r1 p2 c2 r2 p3 c3 c4 r3 show ?thesis by blast
qed


text \<open>
  Claim C2. The filter of \<open>internal/dns/filter.go\<close> and the one of
  \<open>src/unnamed/part_002\<close>, constructed from the same whitelist and blacklist strings (the
  former then has an empty dynamic blacklist), agree on every address that parses. On an
  address that does not parse the former returns true and the latter false, for every
  filter value.
\<close>

theorem IsAllowed_variants:
  assumes "NewIPFilter L wlist blist = Inr f1"
    and "NewIPFilter_p2 L wlist blist = Inr f2"
  shows "(ParseCIDR L a \<noteq> None \<longrightarrow> IsAllowed L f1 a = IsAllowed_p2 L f2 a) \<and>
         (ParseCIDR L a = None \<longrightarrow>
            (\<forall>g. IsAllowed L g a) \<and> (\<forall>g. \<not> IsAllowed_p2 L g a))"
proof -
  from assms obtain wl bl
    where f1: "f1 = \<lparr>whitelist = wl, staticBlacklist = bl, dynamicBlacklist = []\<rparr>"
      and f2: "f2 = \<lparr>whitelist_p2 = wl, blacklist_p2 = bl\<rparr>"
    by (auto simp: NewIPFilter_def NewIPFilter_p2_def split: sum.splits)
  show ?thesis
    by (simp add: f1 f2 IsAllowed_def IsAllowed_p2_def split: option.splits)
qed

theorem IsAllowed_variants_witness:
  "NewIPFilter ipv4lib [''10.0.0.0/8''] [''10.0.1.0/24''] =
     Inr \<lparr>whitelist = [(167772160, 8)], staticBlacklist = [(167772416, 24)],
          dynamicBlacklist = []\<rparr> \<and>
   NewIPFilter_p2 ipv4lib [''10.0.0.0/8''] [''10.0.1.0/24''] =
     Inr \<lparr>whitelist_p2 = [(167772160, 8)], blacklist_p2 = [(167772416, 24)]\<rparr> \<and>
   ParseCIDR ipv4lib ''10.0.2.5/32'' \<noteq> None \<and>
   IsAllowed ipv4lib
      \<lparr>whitelist = [(167772160, 8)], staticBlacklist = [(167772416, 24)],
       dynamicBlacklist = []\<rparr> ''10.0.2.5/32'' =
   IsAllowed_p2 ipv4lib
      \<lparr>whitelist_p2 = [(167772160, 8)], blacklist_p2 = [(167772416, 24)]\<rparr>
      ''10.0.2.5/32'' \<and>
   ParseCIDR ipv4lib ''not-a-cidr'' = None \<and>
   IsAllowed ipv4lib
      \<lparr>whitelist = [(167772160, 8)], staticBlacklist = [(167772416, 24)],
       dynamicBlacklist = []\<rparr> ''not-a-cidr'' \<and>
   \<not> IsAllowed_p2 ipv4lib
      \<lparr>whitelist_p2 = [(167772160, 8)], blacklist_p2 = [(167772416, 24)]\<rparr>
      ''not-a-cidr''"
proof -
  have n1: "NewIPFilter ipv4lib [''10.0.0.0/8''] [''10.0.1.0/24''] =
     Inr \<lparr>whitelist = [(167772160, 8)], staticBlacklist = [(167772416, 24)],
          dynamicBlacklist = []\<rparr>"
    by code_simp
  have n2: "NewIPFilter_p2 ipv4lib [''10.0.0.0/8''] [''10.0.1.0/24''] =
     Inr \<lparr>whitelist_p2 = [(167772160, 8)], blacklist_p2 = [(167772416, 24)]\<rparr>"
    by code_simp
  have p1: "ParseCIDR ipv4lib ''10.0.2.5/32'' \<noteq> None" by code_simp
  have p2: "ParseCIDR ipv4lib ''not-a-cidr'' = None" by code_simp
  from IsAllowed_variants[OF n1 n2, of "''10.0.2.5/32''"] p1
  have r1: "IsAllowed ipv4lib
      \<lparr>whitelist = [(167772160, 8)], staticBlacklist = [(167772416, 24)],
       dynamicBlacklist = []\<rparr> ''10.0.2.5/32'' =
   IsAllowed_p2 ipv4lib
      \<lparr>whitelist_p2 = [(167772160, 8)], blacklist_p2 = [(167772416, 24)]\<rparr>
      ''10.0.2.5/32''"
    by blast
  from IsAllowed_variants[OF n1 n2, of "''not-a-cidr''"] p2
  have r2: "IsAllowed ipv4lib
      \<lparr>whitelist = [(167772160, 8)], staticBlacklist = [(167772416, 24)],
       dynamicBlacklist = []\<rparr> ''not-a-cidr'' \<and>
   \<not> IsAllowed_p2 ipv4lib
      \<lparr>whitelist_p2 = [(167772160, 8)], blacklist_p2 = [(167772416, 24)]\<rparr>
      ''not-a-cidr''"
    by blast
  from n1 n2 p1 p2 r1 r2 show ?thesis by blast
qed


text \<open>
  Claim C3. If every string of \<open>cidrs\<close> parses, with \<open>ns\<close> the list of the parsed
  networks, \<open>SetDynamicBlacklist\<close> returns no error and leaves a filter whose dynamic
  blacklist is exactly \<open>ns\<close>, whatever it held before; a second call with the same input
  changes nothing; the empty input clears the dynamic blacklist. If some string does not
  parse, the call returns an error and the filter is unchanged.
\<close>

theorem SetDynamicBlacklist_replaces:
  "(list_all2 (\<lambda>c n. \<exists>ip. ParseCIDR L c = Some (ip, n)) cidrs ns \<longrightarrow>
      SetDynamicBlacklist L f cidrs = (None, f\<lparr>dynamicBlacklist := ns\<rparr>) \<and>
      SetDynamicBlacklist L (snd (SetDynamicBlacklist L f cidrs)) cidrs =
        SetDynamicBlacklist L f cidrs) \<and>
   SetDynamicBlacklist L f [] = (None, f\<lparr>dynamicBlacklist := []\<rparr>) \<and>
   ((\<exists>c\<in>set cidrs. ParseCIDR L c = None) \<longrightarrow>
      (\<exists>e. SetDynamicBlacklist L f cidrs = (Some (InvalidDynamicBlacklistCIDR e), f)))"
proof (intro conjI impI)
  assume ok: "list_all2 (\<lambda>c n. \<exists>ip. ParseCIDR L c = Some (ip, n)) cidrs ns"
  then have p: "parseCIDRs L cidrs = Inr ns" by (simp add: parseCIDRs_Inr_iff)
  then show "SetDynamicBlacklist L f cidrs = (None, f\<lparr>dynamicBlacklist := ns\<rparr>)"
    by (simp add: SetDynamicBlacklist_def)
  from p show "SetDynamicBlacklist L (snd (SetDynamicBlacklist L f cidrs)) cidrs =
        SetDynamicBlacklist L f cidrs"
    by (simp add: SetDynamicBlacklist_def)
next
  show "SetDynamicBlacklist L f [] = (None, f\<lparr>dynamicBlacklist := []\<rparr>)"
    by (simp add: SetDynamicBlacklist_def parseCIDRs_def)
next
  assume "\<exists>c\<in>set cidrs. ParseCIDR L c = None"
  from parseCIDRs_fail[OF this] obtain e where "parseCIDRs L cidrs = Inl e" ..
  then show "\<exists>e. SetDynamicBlacklist L f cidrs = (Some (InvalidDynamicBlacklistCIDR e), f)"
    by (simp add: SetDynamicBlacklist_def)
qed

theorem SetDynamicBlacklist_replaces_witness:
  "ParseCIDR ipv4lib ''10.244.0.0/24'' = Some (183762944, (183762944, 24)) \<and>
   SetDynamicBlacklist ipv4lib
      \<lparr>whitelist = [], staticBlacklist = [], dynamicBlacklist = [(2130706432, 8)]\<rparr>
      [''10.244.0.0/24''] =
     (None, \<lparr>whitelist = [], staticBlacklist = [], dynamicBlacklist = [(183762944, 24)]\<rparr>) \<and>
   ParseCIDR ipv4lib ''bogus'' = None \<and>
   (\<exists>e. SetDynamicBlacklist ipv4lib
      \<lparr>whitelist = [], staticBlacklist = [], dynamicBlacklist = [(2130706432, 8)]\<rparr>
      [''10.244.0.0/24'', ''bogus''] =
     (Some (InvalidDynamicBlacklistCIDR e),
      \<lparr>whitelist = [], staticBlacklist = [], dynamicBlacklist = [(2130706432, 8)]\<rparr>))"
proof -
  have p1: "ParseCIDR ipv4lib ''10.244.0.0/24'' = Some (183762944, (183762944, 24))"
    by code_simp
  have p2: "ParseCIDR ipv4lib ''bogus'' = None" by code_simp
  have l: "list_all2 (\<lambda>c n. \<exists>ip. ParseCIDR ipv4lib c = Some (ip, n))
             [''10.244.0.0/24''] [(183762944, 24)]"
    using p1 by simp
  have r1: "SetDynamicBlacklist ipv4lib
      \<lparr>whitelist = [], staticBlacklist = [], dynamicBlacklist = [(2130706432, 8)]\<rparr>
      [''10.244.0.0/24''] =
     (None, \<lparr>whitelist = [], staticBlacklist = [], dynamicBlacklist = [(183762944, 24)]\<rparr>)"
    using SetDynamicBlacklist_replaces[of ipv4lib "[''10.244.0.0/24'']" "[(183762944, 24)]"
        "\<lparr>whitelist = [], staticBlacklist = [], dynamicBlacklist = [(2130706432, 8)]\<rparr>"] l
    by simp
  have r2: "\<exists>e. SetDynamicBlacklist ipv4lib
      \<lparr>whitelist = [], staticBlacklist = [], dynamicBlacklist = [(2130706432, 8)]\<rparr>
      [''10.244.0.0/24'', ''bogus''] =
     (Some (InvalidDynamicBlacklistCIDR e),
      \<lparr>whitelist = [], staticBlacklist = [], dynamicBlacklist = [(2130706432, 8)]\<rparr>)"
    using SetDynamicBlacklist_replaces[of ipv4lib "[''10.244.0.0/24'', ''bogus'']" "[]"
        "\<lparr>whitelist = [], staticBlacklist = [], dynamicBlacklist = [(2130706432, 8)]\<rparr>"] p2
    by simp
  from p1 p2 r1 r2 show ?thesis by blast
qed

section \<open>Properties of the filtering resolver\<close>

lemma rangeEqual_iff: "length a = length bs \<Longrightarrow> rangeEqual a bs \<longleftrightarrow> a = bs"
  by (induction a bs rule: rangeEqual.induct) auto

lemma stringSlicesEqual_iff: "stringSlicesEqual a b \<longleftrightarrow> a = sort b"
proof (cases "length a = length b")
  case True
  then show ?thesis by (simp add: stringSlicesEqual_def copyAndSort_def rangeEqual_iff)
next
  case False
  then have "a \<noteq> sort b" by (metis length_sort)
  with False show ?thesis by (simp add: stringSlicesEqual_def)
qed

lemma stringSlicesEqual_mset:
  assumes "sorted a"
  shows "stringSlicesEqual a b \<longleftrightarrow> mset a = mset b"
proof
  assume "stringSlicesEqual a b"
  then have "a = sort b" by (simp add: stringSlicesEqual_iff)
  then show "mset a = mset b" by simp
next
  assume "mset a = mset b"
  with assms have "sort b = a" by (intro properties_for_sort) simp_all
  then show "stringSlicesEqual a b" by (simp add: stringSlicesEqual_iff)
qed

lemma filterLoop_allowed:
  "fst (filterLoop L f h allowed st cidrs) = allowed @ filter (IsAllowed_p2 L f) cidrs"
  by (induction cidrs arbitrary: allowed st) auto

lemma filterLoop_lastSeen: "lastSeen (snd (filterLoop L f h allowed st cidrs)) = lastSeen st"
  by (induction cidrs arbitrary: allowed st) auto

lemma filterLoop_changes:
  "dnsResolutionChangesTotal (snd (filterLoop L f h allowed st cidrs)) =
   dnsResolutionChangesTotal st"
  by (induction cidrs arbitrary: allowed st) auto

lemma Resolve_ok:
  assumes "inner h = Inr cidrs"
  shows "Resolve L f inner st h =
    (Inr (filter (IsAllowed_p2 L f) cidrs),
     detectChange (snd (filterLoop L f h [] st cidrs)) h (filter (IsAllowed_p2 L f) cidrs))"
  using assms filterLoop_allowed[of L f h "[]" st cidrs]
  by (auto simp: Resolve_def split: prod.splits)

lemma detectChange_lastSeen:
  "lastSeen (detectChange st h allowed) = (lastSeen st)(h \<mapsto> sort allowed)"
  by (simp add: detectChange_def copyAndSort_def Let_def split: option.splits)

lemma detectChange_changes:
  "dnsResolutionChangesTotal (detectChange st h allowed) =
     (case lastSeen st h of
        None \<Rightarrow> dnsResolutionChangesTotal st
      | Some prev \<Rightarrow>
          if prev = sort allowed then dnsResolutionChangesTotal st
          else (dnsResolutionChangesTotal st)(h := dnsResolutionChangesTotal st h + 1))"
  by (simp add: detectChange_def stringSlicesEqual_iff Let_def split: option.splits)

lemma Resolve_lastSeen:
  "lastSeen (snd (Resolve L f inner st h)) =
     (case inner h of
        Inl e \<Rightarrow> lastSeen st
      | Inr cidrs \<Rightarrow> (lastSeen st)(h \<mapsto> sort (filter (IsAllowed_p2 L f) cidrs)))"
  by (cases "inner h")
     (simp_all add: Resolve_ok detectChange_lastSeen filterLoop_lastSeen, simp add: Resolve_def)

lemma Resolve_baselinesSorted:
  "\<forall>k prev. lastSeen st k = Some prev \<longrightarrow> sorted prev \<Longrightarrow>
   \<forall>k prev. lastSeen (snd (Resolve L f inner st h)) k = Some prev \<longrightarrow> sorted prev"
  by (auto simp: Resolve_lastSeen split: sum.splits if_splits)

lemma resolveAll_baselinesSorted:
  "\<forall>k prev. lastSeen st k = Some prev \<longrightarrow> sorted prev \<Longrightarrow>
   \<forall>k prev. lastSeen (resolveAll L f st calls) k = Some prev \<longrightarrow> sorted prev"
proof (induction calls arbitrary: st)
  case Nil
  then show ?case by simp
next
  case (Cons c calls)
  obtain inner h where c: "c = (inner, h)" by (cases c)
  from Cons.prems
  have "\<forall>k prev. lastSeen (snd (Resolve L f inner st h)) k = Some prev \<longrightarrow> sorted prev"
    by (rule Resolve_baselinesSorted)
  from Cons.IH[OF this] show ?case by (simp add: c)
qed

lemma resolveAll_sorted:
  assumes "lastSeen st0 = Map.empty" and "lastSeen (resolveAll L f st0 calls) k = Some prev"
  shows "sorted prev"
proof -
  from assms(1) have "\<forall>k prev. lastSeen st0 k = Some prev \<longrightarrow> sorted prev" by simp
  from resolveAll_baselinesSorted[OF this] assms(2) show ?thesis by blast
qed

lemma resolveAll_unseen:
  "lastSeen (resolveAll L f st calls) h = None \<longleftrightarrow>
   lastSeen st h = None \<and> (\<forall>(inner, k)\<in>set calls. k = h \<longrightarrow> isl (inner h))"
proof (induction calls arbitrary: st)
  case Nil
  then show ?case by simp
next
  case (Cons c calls)
  obtain inner k where c: "c = (inner, k)" by (cases c)
  show ?case
    unfolding c by (cases "inner k") (auto simp: Cons.IH Resolve_lastSeen)
qed

lemma resolveAll_previous:
  "lastSeen (resolveAll L f st calls) h =
     (case spec_previous L f calls h of
        None \<Rightarrow> lastSeen st h
      | Some allowed \<Rightarrow> Some (sort allowed))"
proof (induction calls arbitrary: st)
  case Nil
  then show ?case by simp
next
  case (Cons c calls)
  obtain inner k where c: "c = (inner, k)" by (cases c)
  show ?case
    unfolding c
    by (cases "inner k") (auto simp: Cons.IH Resolve_lastSeen split: option.splits)
qed

text \<open>
  Claim C4, as the code has it. Take a resolver that starts with an empty \<open>lastSeen\<close>,
  any sequence of earlier calls, and a call for \<open>h\<close> on which the inner resolver
  succeeds. The call returns the filtered list in the order received. A baseline for \<open>h\<close>
  is stored exactly when some earlier call for \<open>h\<close> succeeded, and it is then the sorted
  filtered list of the most recent such call, whatever was resolved for other hostnames
  in between. Without a baseline the change counter is left as it is. With a baseline,
  the counter of \<open>h\<close> (and of no other hostname) goes up by one when the baseline and the
  filtered list differ as multisets, so regardless of order but counting repetitions, and
  the counter is left as it is when they agree as multisets. The comparison is not one of
  sets: a baseline \<open>[x]\<close> and a filtered list \<open>[x, x]\<close> count as a change, as the
  counterexample after the theorem computes.
\<close>

theorem Resolve_change_event:
  assumes "lastSeen st0 = Map.empty"
    and "st = resolveAll L f st0 calls"
    and "inner h = Inr cidrs"
  shows "fst (Resolve L f inner st h) = Inr (filter (IsAllowed_p2 L f) cidrs) \<and>
         ((\<forall>(i, k)\<in>set calls. k = h \<longrightarrow> isl (i h)) \<longleftrightarrow> lastSeen st h = None) \<and>
         lastSeen st h = map_option sort (spec_previous L f calls h) \<and>
         dnsResolutionChangesTotal (snd (Resolve L f inner st h)) =
           (case lastSeen st h of
              None \<Rightarrow> dnsResolutionChangesTotal st
            | Some prev \<Rightarrow>
                if mset prev = mset (filter (IsAllowed_p2 L f) cidrs)
                then dnsResolutionChangesTotal st
                else (dnsResolutionChangesTotal st)
                       (h := dnsResolutionChangesTotal st h + 1))"
proof (intro conjI)
  show "fst (Resolve L f inner st h) = Inr (filter (IsAllowed_p2 L f) cidrs)"
    using assms(3) by (simp add: Resolve_ok)
  show "(\<forall>(i, k)\<in>set calls. k = h \<longrightarrow> isl (i h)) \<longleftrightarrow> lastSeen st h = None"
    using assms(1,2) by (simp add: resolveAll_unseen)
  show "lastSeen st h = map_option sort (spec_previous L f calls h)"
    using assms(1,2) by (simp add: resolveAll_previous split: option.splits)
  show "dnsResolutionChangesTotal (snd (Resolve L f inner st h)) =
           (case lastSeen st h of
              None \<Rightarrow> dnsResolutionChangesTotal st
            | Some prev \<Rightarrow>
                if mset prev = mset (filter (IsAllowed_p2 L f) cidrs)
                then dnsResolutionChangesTotal st
                else (dnsResolutionChangesTotal st)
                       (h := dnsResolutionChangesTotal st h + 1))"
  proof (cases "lastSeen st h")
    case None
    then show ?thesis
      using assms(3)
      by (simp add: Resolve_ok detectChange_changes filterLoop_lastSeen filterLoop_changes)
  next
    case (Some prev)
    with assms(1,2) have "sorted prev" by (auto intro: resolveAll_sorted)
    then have "prev = sort (filter (IsAllowed_p2 L f) cidrs) \<longleftrightarrow>
               mset prev = mset (filter (IsAllowed_p2 L f) cidrs)"
      using stringSlicesEqual_mset[of prev] by (simp add: stringSlicesEqual_iff)
    with Some show ?thesis
      using assms(3)
      by (simp add: Resolve_ok detectChange_changes filterLoop_lastSeen filterLoop_changes)
  qed
qed

theorem Resolve_change_event_counterexample:
  "set [''1.2.3.4/32'', ''1.2.3.4/32''] = set [''1.2.3.4/32''] \<and>
   lastSeen
     (snd (Resolve ipv4lib \<lparr>whitelist_p2 = [], blacklist_p2 = []\<rparr>
             (stubResolver (resultsFor ''example.com'' [''1.2.3.4/32'']) None)
             newResolverState ''example.com''))
     ''example.com'' = Some [''1.2.3.4/32''] \<and>
   fst (Resolve ipv4lib \<lparr>whitelist_p2 = [], blacklist_p2 = []\<rparr>
          (stubResolver (resultsFor ''example.com'' [''1.2.3.4/32'', ''1.2.3.4/32'']) None)
          (snd (Resolve ipv4lib \<lparr>whitelist_p2 = [], blacklist_p2 = []\<rparr>
                  (stubResolver (resultsFor ''example.com'' [''1.2.3.4/32'']) None)
                  newResolverState ''example.com''))
          ''example.com'') = Inr [''1.2.3.4/32'', ''1.2.3.4/32''] \<and>
   dnsResolutionChangesTotal
     (snd (Resolve ipv4lib \<lparr>whitelist_p2 = [], blacklist_p2 = []\<rparr>
             (stubResolver (resultsFor ''example.com'' [''1.2.3.4/32'']) None)
             newResolverState ''example.com''))
     ''example.com'' = 0 \<and>
   dnsResolutionChangesTotal
     (snd (Resolve ipv4lib \<lparr>whitelist_p2 = [], blacklist_p2 = []\<rparr>
             (stubResolver (resultsFor ''example.com'' [''1.2.3.4/32'', ''1.2.3.4/32'']) None)
             (snd (Resolve ipv4lib \<lparr>whitelist_p2 = [], blacklist_p2 = []\<rparr>
                     (stubResolver (resultsFor ''example.com'' [''1.2.3.4/32'']) None)
                     newResolverState ''example.com''))
             ''example.com''))
     ''example.com'' = 1"
  by code_simp

theorem Resolve_change_event_witness:
  "dnsResolutionChangesTotal
     (snd (Resolve ipv4lib \<lparr>whitelist_p2 = [], blacklist_p2 = [(2130706432, 8)]\<rparr>
             (stubResolver (resultsFor ''example.com'' [''1.2.3.4/32'', ''127.0.0.1/32'']) None)
             newResolverState ''example.com'')) =
     dnsResolutionChangesTotal newResolverState \<and>
   fst (Resolve ipv4lib \<lparr>whitelist_p2 = [], blacklist_p2 = [(2130706432, 8)]\<rparr>
          (stubResolver (resultsFor ''example.com'' [''5.6.7.8/32'']) None)
          (resolveAll ipv4lib \<lparr>whitelist_p2 = [], blacklist_p2 = [(2130706432, 8)]\<rparr>
             newResolverState
             [(stubResolver (resultsFor ''example.com'' [''1.2.3.4/32'', ''127.0.0.1/32'']) None,
               ''example.com'')])
          ''example.com'') = Inr [''5.6.7.8/32''] \<and>
   dnsResolutionChangesTotal
     (snd (Resolve ipv4lib \<lparr>whitelist_p2 = [], blacklist_p2 = [(2130706432, 8)]\<rparr>
             (stubResolver (resultsFor ''example.com'' [''5.6.7.8/32'']) None)
             (resolveAll ipv4lib \<lparr>whitelist_p2 = [], blacklist_p2 = [(2130706432, 8)]\<rparr>
                newResolverState
                [(stubResolver (resultsFor ''example.com'' [''1.2.3.4/32'', ''127.0.0.1/32'']) None,
                  ''example.com'')])
             ''example.com'')) =
     (dnsResolutionChangesTotal
        (resolveAll ipv4lib \<lparr>whitelist_p2 = [], blacklist_p2 = [(2130706432, 8)]\<rparr>
           newResolverState
           [(stubResolver (resultsFor ''example.com'' [''1.2.3.4/32'', ''127.0.0.1/32'']) None,
             ''example.com'')]))
       (''example.com'' :=
          dnsResolutionChangesTotal
            (resolveAll ipv4lib \<lparr>whitelist_p2 = [], blacklist_p2 = [(2130706432, 8)]\<rparr>
               newResolverState
               [(stubResolver (resultsFor ''example.com'' [''1.2.3.4/32'', ''127.0.0.1/32'']) None,
                 ''example.com'')])
            ''example.com'' + 1) \<and>
   lastSeen
     (resolveAll ipv4lib \<lparr>whitelist_p2 = [], blacklist_p2 = [(2130706432, 8)]\<rparr>
        newResolverState
        [(stubResolver (resultsFor ''a.example'' [''1.1.1.1/32'']) None, ''a.example''),
         (stubResolver (resultsFor ''b.example'' [''2.2.2.2/32'']) None, ''b.example'')])
     ''a.example'' = Some [''1.1.1.1/32''] \<and>
   dnsResolutionChangesTotal
     (snd (Resolve ipv4lib \<lparr>whitelist_p2 = [], blacklist_p2 = [(2130706432, 8)]\<rparr>
             (stubResolver (resultsFor ''a.example'' [''9.9.9.9/32'']) None)
             (resolveAll ipv4lib \<lparr>whitelist_p2 = [], blacklist_p2 = [(2130706432, 8)]\<rparr>
                newResolverState
                [(stubResolver (resultsFor ''a.example'' [''1.1.1.1/32'']) None, ''a.example''),
                 (stubResolver (resultsFor ''b.example'' [''2.2.2.2/32'']) None,
                  ''b.example'')])
             ''a.example''))
     ''a.example'' =
   dnsResolutionChangesTotal
     (resolveAll ipv4lib \<lparr>whitelist_p2 = [], blacklist_p2 = [(2130706432, 8)]\<rparr>
        newResolverState
        [(stubResolver (resultsFor ''a.example'' [''1.1.1.1/32'']) None, ''a.example''),
         (stubResolver (resultsFor ''b.example'' [''2.2.2.2/32'']) None, ''b.example'')])
     ''a.example'' + 1"
proof -
  let ?F = "\<lparr>whitelist_p2 = [], blacklist_p2 = [(2130706432, 8)]\<rparr> :: (int \<times> int) IPFilter_p2"
  let ?i1 = "stubResolver (resultsFor ''example.com'' [''1.2.3.4/32'', ''127.0.0.1/32'']) None"
  let ?i2 = "stubResolver (resultsFor ''example.com'' [''5.6.7.8/32'']) None"
  let ?S1 = "resolveAll ipv4lib ?F newResolverState [(?i1, ''example.com'')]"
  have e: "lastSeen newResolverState = Map.empty" by (simp add: newResolverState_def)
  have a1: "?i1 ''example.com'' = Inr [''1.2.3.4/32'', ''127.0.0.1/32'']"
    by (simp add: stubResolver_def resultsFor_def)
  have a2: "?i2 ''example.com'' = Inr [''5.6.7.8/32'']"
    by (simp add: stubResolver_def resultsFor_def)
  have f2: "filter (IsAllowed_p2 ipv4lib ?F) [''5.6.7.8/32''] = [''5.6.7.8/32'']"
    by code_simp
  have l1: "lastSeen ?S1 ''example.com'' = Some [''1.2.3.4/32'']" by code_simp
  have r0: "resolveAll ipv4lib ?F newResolverState [] = newResolverState" by simp
  have first: "dnsResolutionChangesTotal
      (snd (Resolve ipv4lib ?F ?i1 newResolverState ''example.com'')) =
      dnsResolutionChangesTotal newResolverState"
    using Resolve_change_event[where ?st0.0 = newResolverState and st = newResolverState
        and L = ipv4lib and f = ?F and calls = "[]" and inner = ?i1 and h = "''example.com''"
        and cidrs = "[''1.2.3.4/32'', ''127.0.0.1/32'']"] e a1
    by (simp add: newResolverState_def)
  have later: "fst (Resolve ipv4lib ?F ?i2 ?S1 ''example.com'') = Inr [''5.6.7.8/32''] \<and>
      dnsResolutionChangesTotal (snd (Resolve ipv4lib ?F ?i2 ?S1 ''example.com'')) =
      (dnsResolutionChangesTotal ?S1)
        (''example.com'' := dnsResolutionChangesTotal ?S1 ''example.com'' + 1)"
    using Resolve_change_event[where ?st0.0 = newResolverState and st = ?S1
        and L = ipv4lib and f = ?F and calls = "[(?i1, ''example.com'')]" and inner = ?i2
        and h = "''example.com''" and cidrs = "[''5.6.7.8/32'']", OF e refl a2]
    unfolding f2 l1 by simp
  let ?c3 = "[(stubResolver (resultsFor ''a.example'' [''1.1.1.1/32'']) None, ''a.example''),
              (stubResolver (resultsFor ''b.example'' [''2.2.2.2/32'']) None, ''b.example'')]"
  let ?i3 = "stubResolver (resultsFor ''a.example'' [''9.9.9.9/32'']) None"
  let ?S3 = "resolveAll ipv4lib ?F newResolverState ?c3"
  have a3: "?i3 ''a.example'' = Inr [''9.9.9.9/32'']"
    by (simp add: stubResolver_def resultsFor_def)
  have f3: "filter (IsAllowed_p2 ipv4lib ?F) [''9.9.9.9/32''] = [''9.9.9.9/32'']"
    by code_simp
  have p3: "spec_previous ipv4lib ?F ?c3 ''a.example'' = Some [''1.1.1.1/32'']"
    by code_simp
  note th3 = Resolve_change_event[where ?st0.0 = newResolverState and st = ?S3
        and L = ipv4lib and f = ?F and calls = ?c3 and inner = ?i3
        and h = "''a.example''" and cidrs = "[''9.9.9.9/32'']", OF e refl a3]
  from th3 have l3: "lastSeen ?S3 ''a.example'' = Some [''1.1.1.1/32'']"
    unfolding p3 by simp
  from th3 have "dnsResolutionChangesTotal (snd (Resolve ipv4lib ?F ?i3 ?S3 ''a.example'')) =
      (dnsResolutionChangesTotal ?S3)
        (''a.example'' := dnsResolutionChangesTotal ?S3 ''a.example'' + 1)"
    unfolding f3 l3 by simp
  then have inter: "dnsResolutionChangesTotal
      (snd (Resolve ipv4lib ?F ?i3 ?S3 ''a.example'')) ''a.example'' =
      dnsResolutionChangesTotal ?S3 ''a.example'' + 1"
    by simp
  from first later l3 inter show ?thesis by blast
qed


text \<open>
  Claim C5, as the code has it. After any sequence of calls on a resolver that starts with
  an empty \<open>lastSeen\<close>, every stored list is sorted, and a further successful call for
  \<open>h\<close> stores the sorted filtered list as the baseline of \<open>h\<close>, whether or not a change
  was counted. \<open>copyAndSort\<close> keeps repeated entries: the stored list need not be free of
  duplicates, as the counterexample after the theorem computes.
\<close>

theorem Resolve_baseline:
  assumes "lastSeen st0 = Map.empty"
    and "st = resolveAll L f st0 calls"
  shows "(\<forall>k prev. lastSeen st k = Some prev \<longrightarrow> sorted prev) \<and>
         (\<forall>inner h cidrs. inner h = Inr cidrs \<longrightarrow>
            lastSeen (snd (Resolve L f inner st h)) h =
              Some (sort (filter (IsAllowed_p2 L f) cidrs)))"
  using assms by (auto simp: Resolve_lastSeen intro: resolveAll_sorted)

theorem Resolve_baseline_counterexample:
  "lastSeen
     (snd (Resolve ipv4lib \<lparr>whitelist_p2 = [], blacklist_p2 = []\<rparr>
             (stubResolver (resultsFor ''example.com'' [''1.2.3.4/32'', ''1.2.3.4/32'']) None)
             newResolverState ''example.com''))
     ''example.com'' = Some [''1.2.3.4/32'', ''1.2.3.4/32''] \<and>
   \<not> distinct [''1.2.3.4/32'', ''1.2.3.4/32''] \<and>
   lastSeen
     (snd (Resolve ipv4lib \<lparr>whitelist_p2 = [], blacklist_p2 = []\<rparr>
             (stubResolver (resultsFor ''example.com'' [''1.2.3.4/32'', ''1.2.3.4/32'']) None)
             newResolverState ''example.com''))
     ''example.com'' \<noteq> Some (sort (remdups [''1.2.3.4/32'', ''1.2.3.4/32'']))"
  by code_simp

theorem Resolve_baseline_witness:
  "lastSeen
     (resolveAll ipv4lib \<lparr>whitelist_p2 = [], blacklist_p2 = [(2130706432, 8)]\<rparr>
        newResolverState
        [(stubResolver (resultsFor ''example.com'' [''5.6.7.8/32'', ''1.2.3.4/32'']) None,
          ''example.com'')])
     ''example.com'' = Some [''1.2.3.4/32'', ''5.6.7.8/32''] \<and>
   sorted [''1.2.3.4/32'', ''5.6.7.8/32''] \<and>
   lastSeen
     (snd (Resolve ipv4lib \<lparr>whitelist_p2 = [], blacklist_p2 = [(2130706432, 8)]\<rparr>
             (stubResolver (resultsFor ''example.com'' [''9.9.9.9/32'', ''127.0.0.1/32'', ''1.1.1.1/32''])
                None)
             (resolveAll ipv4lib \<lparr>whitelist_p2 = [], blacklist_p2 = [(2130706432, 8)]\<rparr>
                newResolverState
                [(stubResolver (resultsFor ''example.com'' [''5.6.7.8/32'', ''1.2.3.4/32'']) None,
                  ''example.com'')])
             ''example.com''))
     ''example.com'' = Some [''1.1.1.1/32'', ''9.9.9.9/32'']"
proof -
  let ?F = "\<lparr>whitelist_p2 = [], blacklist_p2 = [(2130706432, 8)]\<rparr> :: (int \<times> int) IPFilter_p2"
  let ?i1 = "stubResolver (resultsFor ''example.com'' [''5.6.7.8/32'', ''1.2.3.4/32'']) None"
  let ?i2 = "stubResolver (resultsFor ''example.com'' [''9.9.9.9/32'', ''127.0.0.1/32'', ''1.1.1.1/32''])
               None"
  let ?S1 = "resolveAll ipv4lib ?F newResolverState [(?i1, ''example.com'')]"
  have e: "lastSeen newResolverState = Map.empty" by (simp add: newResolverState_def)
  have a2: "?i2 ''example.com'' = Inr [''9.9.9.9/32'', ''127.0.0.1/32'', ''1.1.1.1/32'']"
    by (simp add: stubResolver_def resultsFor_def)
  have l1: "lastSeen ?S1 ''example.com'' = Some [''1.2.3.4/32'', ''5.6.7.8/32'']" by code_simp
  have s2: "sort (filter (IsAllowed_p2 ipv4lib ?F)
              [''9.9.9.9/32'', ''127.0.0.1/32'', ''1.1.1.1/32'']) =
            [''1.1.1.1/32'', ''9.9.9.9/32'']"
    by code_simp
  note th = Resolve_baseline[OF e refl, of ipv4lib ?F "[(?i1, ''example.com'')]"]
  from th l1 have c1: "sorted [''1.2.3.4/32'', ''5.6.7.8/32'']" by blast
  from th a2 have "lastSeen (snd (Resolve ipv4lib ?F ?i2 ?S1 ''example.com'')) ''example.com'' =
      Some (sort (filter (IsAllowed_p2 ipv4lib ?F)
              [''9.9.9.9/32'', ''127.0.0.1/32'', ''1.1.1.1/32'']))"
    by blast
  with s2 have c2: "lastSeen (snd (Resolve ipv4lib ?F ?i2 ?S1 ''example.com'')) ''example.com'' =
      Some [''1.1.1.1/32'', ''9.9.9.9/32'']"
    by simp
  from l1 c1 c2 show ?thesis by blast
qed


text \<open>
  Claim C10. When the inner resolver returns an error for \<open>h\<close>, \<open>Resolve\<close> returns that
  error and the state is the one before the call: \<open>lastSeen\<close>, both counter vectors and
  the log are unchanged. A later call for \<open>h\<close> therefore behaves as if the failed call
  had not happened.
\<close>

theorem Resolve_inner_error:
  assumes "inner h = Inl e"
  shows "Resolve L f inner st h = (Inl e, st) \<and>
         Resolve L f inner' (snd (Resolve L f inner st h)) h = Resolve L f inner' st h"
  using assms by (simp add: Resolve_def)

theorem Resolve_inner_error_witness:
  "stubResolver (resultsFor ''example.com'' []) (Some (ResolverError ''no such host''))
     ''example.com'' = Inl (ResolverError ''no such host'') \<and>
   Resolve ipv4lib \<lparr>whitelist_p2 = [], blacklist_p2 = [(2130706432, 8)]\<rparr>
     (stubResolver (resultsFor ''example.com'' []) (Some (ResolverError ''no such host'')))
     (newResolverState\<lparr>lastSeen := (resultsFor ''example.com'' [''1.2.3.4/32''])\<rparr>)
     ''example.com'' =
   (Inl (ResolverError ''no such host''),
    newResolverState\<lparr>lastSeen := (resultsFor ''example.com'' [''1.2.3.4/32''])\<rparr>)"
proof -
  have a: "stubResolver (resultsFor ''example.com'' []) (Some (ResolverError ''no such host''))
     ''example.com'' = Inl (ResolverError ''no such host'')"
    by (simp add: stubResolver_def resultsFor_def)
  from Resolve_inner_error[where
      inner = "stubResolver (resultsFor ''example.com'' []) (Some (ResolverError ''no such host''))"
      and h = "''example.com''" and e = "ResolverError ''no such host''", OF a] a
  show ?thesis by blast
qed

section \<open>Properties of the pod CIDR provider\<close>

lemma filter_spec_firstSeen: "filter P (spec_firstSeen xs) = spec_firstSeen (filter P xs)"
proof (induction xs)
  case Nil
  then show ?case by simp
next
  case (Cons x xs)
  show ?case
  proof (cases "P x")
    case True
    have "filter P (filter (\<lambda>y. y \<noteq> x) (spec_firstSeen xs)) =
          filter (\<lambda>y. y \<noteq> x) (filter P (spec_firstSeen xs))"
      by (simp add: conj_commute)
    with True Cons.IH show ?thesis by simp
  next
    case False
    then have "filter P (filter (\<lambda>y. y \<noteq> x) (spec_firstSeen xs)) =
               filter P (spec_firstSeen xs)"
      by (auto intro: filter_cong)
    with False Cons.IH show ?thesis by simp
  qed
qed

lemma set_spec_firstSeen: "set (spec_firstSeen xs) = set xs"
  by (induction xs) auto

lemma spec_firstSeen_append:
  "spec_firstSeen (xs @ ys) = spec_firstSeen xs @ spec_firstSeen (filter (\<lambda>y. y \<notin> set xs) ys)"
proof (induction xs arbitrary: ys)
  case Nil
  then show ?case by simp
next
  case (Cons x xs)
  have "filter (\<lambda>y. y \<noteq> x) (spec_firstSeen (filter (\<lambda>y. y \<notin> set xs) ys)) =
        spec_firstSeen (filter (\<lambda>y. y \<notin> set (x # xs)) ys)"
    by (simp add: filter_spec_firstSeen conj_commute)
  with Cons.IH[of ys] show ?case by simp
qed

lemma distinct_spec_firstSeen: "distinct (spec_firstSeen xs)"
  by (induction xs) (auto simp: set_spec_firstSeen)

lemma collectCIDRs_spec:
  "collectCIDRs (set acc, acc) xs =
     (set acc \<union> set xs, acc @ spec_firstSeen (filter (\<lambda>y. y \<notin> set acc) xs))"
proof (induction xs arbitrary: acc)
  case Nil
  then show ?case by simp
next
  case (Cons x xs)
  show ?case
  proof (cases "x \<in> set acc")
    case True
    with Cons.IH[of acc] show ?thesis by auto
  next
    case False
    have "filter (\<lambda>y. y \<noteq> x) (spec_firstSeen (filter (\<lambda>y. y \<notin> set acc) xs)) =
          spec_firstSeen (filter (\<lambda>y. y \<notin> set (acc @ [x])) xs)"
      by (simp add: filter_spec_firstSeen conj_commute)
    with False Cons.IH[of "acc @ [x]"] show ?thesis by simp
  qed
qed

lemma podCIDRs_choice:
  "(if length (PodCIDRs node) = 0 \<and> PodCIDR node \<noteq> [] then [PodCIDR node] else PodCIDRs node) =
   spec_nodeRanges node"
  by (simp add: spec_nodeRanges_def)

lemma collectNodes_spec:
  "collectNodes (set acc, acc) nodes =
     (set acc \<union> set (concat (map spec_nodeRanges nodes)),
      acc @ spec_firstSeen (filter (\<lambda>y. y \<notin> set acc) (concat (map spec_nodeRanges nodes))))"
proof (induction nodes arbitrary: acc)
  case Nil
  then show ?case by simp
next
  case (Cons node nodes)
  let ?r = "spec_nodeRanges node"
  let ?acc = "acc @ spec_firstSeen (filter (\<lambda>y. y \<notin> set acc) ?r)"
  have s: "set ?acc = set acc \<union> set ?r" by (auto simp: set_spec_firstSeen)
  have "collectNodes (set acc, acc) (node # nodes) =
        collectNodes (collectCIDRs (set acc, acc) ?r) nodes"
    by (simp only: collectNodes.simps podCIDRs_choice Let_def)
  also have "collectCIDRs (set acc, acc) ?r = (set ?acc, ?acc)"
    by (simp only: collectCIDRs_spec s set_filter)
  finally have step:
    "collectNodes (set acc, acc) (node # nodes) = collectNodes (set ?acc, ?acc) nodes" .
  let ?rest = "concat (map spec_nodeRanges nodes)"
  have f: "filter (\<lambda>y. y \<notin> set (filter (\<lambda>y. y \<notin> set acc) ?r))
             (filter (\<lambda>y. y \<notin> set acc) ?rest) =
           filter (\<lambda>y. y \<notin> set ?acc) ?rest"
    unfolding filter_filter s by (rule filter_cong) auto
  have "spec_firstSeen (filter (\<lambda>y. y \<notin> set acc) (?r @ ?rest)) =
        spec_firstSeen (filter (\<lambda>y. y \<notin> set acc) ?r) @
        spec_firstSeen (filter (\<lambda>y. y \<notin> set ?acc) ?rest)"
    unfolding filter_append spec_firstSeen_append f ..
  then have b: "?acc @ spec_firstSeen (filter (\<lambda>y. y \<notin> set ?acc) ?rest) =
        acc @ spec_firstSeen (filter (\<lambda>y. y \<notin> set acc)
                (concat (map spec_nodeRanges (node # nodes))))"
    by (simp only: list.map concat.simps append_assoc)
  have a: "set ?acc \<union> set ?rest = set acc \<union> set (concat (map spec_nodeRanges (node # nodes)))"
    unfolding s by auto
  from step Cons.IH[of ?acc] show ?case by (simp only: a b)
qed

lemma collectNodes_initial:
  "collectNodes ({}, []) nodes =
     (set (concat (map spec_nodeRanges nodes)),
      spec_firstSeen (concat (map spec_nodeRanges nodes)))"
  using collectNodes_spec[of "[]" nodes] by simp

text \<open>
  Claim C6. If listing the nodes fails, \<open>refresh\<close> leaves the filter as it is. If it
  yields no node, the dynamic blacklist becomes empty. If it yields nodes, what \<open>refresh\<close>
  hands to \<open>SetDynamicBlacklist\<close> is the collection of the nodes' ranges (the multi-range
  list of a node, else its non-empty single-range field) deduplicated in first-seen order;
  when every string of the collection parses, the dynamic blacklist after the refresh is
  exactly the list of the parsed networks of the collection.
\<close>

theorem refresh_installs:
  "fst (refresh L f (Inl err)) = f \<and>
   fst (refresh L f (Inr [])) = f\<lparr>dynamicBlacklist := []\<rparr> \<and>
   fst (refresh L f (Inr nodes)) =
     snd (SetDynamicBlacklist L f (spec_firstSeen (concat (map spec_nodeRanges nodes)))) \<and>
   (list_all2 (\<lambda>c n. \<exists>ip. ParseCIDR L c = Some (ip, n))
      (spec_firstSeen (concat (map spec_nodeRanges nodes))) ns \<longrightarrow>
    fst (refresh L f (Inr nodes)) = f\<lparr>dynamicBlacklist := ns\<rparr>)"
proof (intro conjI impI)
  show "fst (refresh L f (Inl err)) = f" by (simp add: refresh_def)
  show "fst (refresh L f (Inr [])) = f\<lparr>dynamicBlacklist := []\<rparr>"
    by (simp add: refresh_def SetDynamicBlacklist_def parseCIDRs_def)
  show "fst (refresh L f (Inr nodes)) =
     snd (SetDynamicBlacklist L f (spec_firstSeen (concat (map spec_nodeRanges nodes))))"
    by (simp add: refresh_def collectNodes_initial split: prod.splits option.splits)
next
  assume "list_all2 (\<lambda>c n. \<exists>ip. ParseCIDR L c = Some (ip, n))
      (spec_firstSeen (concat (map spec_nodeRanges nodes))) ns"
  then have "parseCIDRs L (spec_firstSeen (concat (map spec_nodeRanges nodes))) = Inr ns"
    by (simp add: parseCIDRs_Inr_iff)
  then show "fst (refresh L f (Inr nodes)) = f\<lparr>dynamicBlacklist := ns\<rparr>"
    by (simp add: refresh_def collectNodes_initial SetDynamicBlacklist_def)
qed

theorem refresh_installs_witness:
  "spec_firstSeen
     (concat (map spec_nodeRanges
        [\<lparr>node_Name = ''node-1'', PodCIDR = ''10.244.0.0/24'',
          PodCIDRs = [''10.244.0.0/24'', ''10.244.2.0/24'']\<rparr>,
         \<lparr>node_Name = ''node-2'', PodCIDR = ''10.244.0.0/24'', PodCIDRs = []\<rparr>,
         \<lparr>node_Name = ''node-3'', PodCIDR = ''10.244.1.0/24'', PodCIDRs = []\<rparr>,
         \<lparr>node_Name = ''node-4'', PodCIDR = [], PodCIDRs = []\<rparr>])) =
     [''10.244.0.0/24'', ''10.244.2.0/24'', ''10.244.1.0/24''] \<and>
   fst (refresh ipv4lib
          \<lparr>whitelist = [], staticBlacklist = [(2130706432, 8)],
           dynamicBlacklist = [(167772160, 8)]\<rparr>
          (Inr [\<lparr>node_Name = ''node-1'', PodCIDR = ''10.244.0.0/24'',
                 PodCIDRs = [''10.244.0.0/24'', ''10.244.2.0/24'']\<rparr>,
                \<lparr>node_Name = ''node-2'', PodCIDR = ''10.244.0.0/24'', PodCIDRs = []\<rparr>,
                \<lparr>node_Name = ''node-3'', PodCIDR = ''10.244.1.0/24'', PodCIDRs = []\<rparr>,
                \<lparr>node_Name = ''node-4'', PodCIDR = [], PodCIDRs = []\<rparr>])) =
     \<lparr>whitelist = [], staticBlacklist = [(2130706432, 8)],
      dynamicBlacklist = [(183762944, 24), (183763456, 24), (183763200, 24)]\<rparr>"
proof -
  let ?nodes = "[\<lparr>node_Name = ''node-1'', PodCIDR = ''10.244.0.0/24'',
          PodCIDRs = [''10.244.0.0/24'', ''10.244.2.0/24'']\<rparr>,
         \<lparr>node_Name = ''node-2'', PodCIDR = ''10.244.0.0/24'', PodCIDRs = []\<rparr>,
         \<lparr>node_Name = ''node-3'', PodCIDR = ''10.244.1.0/24'', PodCIDRs = []\<rparr>,
         \<lparr>node_Name = ''node-4'', PodCIDR = [], PodCIDRs = []\<rparr>]"
  have col: "spec_firstSeen (concat (map spec_nodeRanges ?nodes)) =
     [''10.244.0.0/24'', ''10.244.2.0/24'', ''10.244.1.0/24'']"
    by code_simp
  have p1: "ParseCIDR ipv4lib ''10.244.0.0/24'' = Some (183762944, (183762944, 24))"
    by code_simp
  have p2: "ParseCIDR ipv4lib ''10.244.2.0/24'' = Some (183763456, (183763456, 24))"
    by code_simp
  have p3: "ParseCIDR ipv4lib ''10.244.1.0/24'' = Some (183763200, (183763200, 24))"
    by code_simp
  have l: "list_all2 (\<lambda>c n. \<exists>ip. ParseCIDR ipv4lib c = Some (ip, n))
      (spec_firstSeen (concat (map spec_nodeRanges ?nodes)))
      [(183762944, 24), (183763456, 24), (183763200, 24)]"
    unfolding col using p1 p2 p3 by simp
  from refresh_installs[of ipv4lib
      "\<lparr>whitelist = [], staticBlacklist = [(2130706432, 8)],
        dynamicBlacklist = [(167772160, 8)]\<rparr>" _ ?nodes
      "[(183762944, 24), (183763456, 24), (183763200, 24)]"] l
  have "fst (refresh ipv4lib
          \<lparr>whitelist = [], staticBlacklist = [(2130706432, 8)],
           dynamicBlacklist = [(167772160, 8)]\<rparr> (Inr ?nodes)) =
     \<lparr>whitelist = [], staticBlacklist = [(2130706432, 8)],
      dynamicBlacklist = [(167772160, 8)]\<rparr>
       \<lparr>dynamicBlacklist := [(183762944, 24), (183763456, 24), (183763200, 24)]\<rparr>"
    by blast
  with col show ?thesis by simp
qed


section \<open>Properties of the reconciler\<close>

lemma appendPeers_eq:
  "appendPeers peers cidrs =
   peers @ map (\<lambda>cidr. \<lparr>peer_PodSelector = None, peer_NamespaceSelector = None,
              peer_IPBlock = Some \<lparr>CIDR = cidr, Except = []\<rparr>\<rparr>) cidrs"
  by (induction cidrs arbitrary: peers) auto

lemma convertPorts_eq: "convertPorts ports ps = ports @ map spec_port ps"
  by (induction ps arbitrary: ports) (auto simp: spec_port_def)

lemma resolveTo_eq:
  "resolveTo q R tos (P, M, X) =
     (P @ concat (map (spec_peers R) tos),
      (\<lambda>h. if h \<in> set (map Hostname tos)
           then (case R h of Inl err \<Rightarrow> M h | Inr cidrs \<Rightarrow> Some cidrs) else M h),
      X @ spec_failures q R (map Hostname tos))"
proof (induction tos arbitrary: P M X)
  case Nil
  then show ?case by (simp add: spec_failures_def)
next
  case (Cons to tos)
  show ?case
  proof (cases "R (Hostname to)")
    case (Inl err)
    then show ?thesis
      by (auto simp: Cons.IH spec_peers_def spec_failures_def split: sum.splits)
  next
    case (Inr cidrs)
    then show ?thesis
      by (auto simp: Cons.IH spec_peers_def spec_failures_def appendPeers_eq
               split: sum.splits)
  qed
qed

lemma egressLoop_eq:
  "egressLoop q R rules (E, M, X) =
     (E @ map (spec_rule R) rules,
      (\<lambda>h. if h \<in> set (concat (map (\<lambda>rule. map Hostname (anp_To rule)) rules))
           then (case R h of Inl err \<Rightarrow> M h | Inr cidrs \<Rightarrow> Some cidrs) else M h),
      X @ spec_failures q R (concat (map (\<lambda>rule. map Hostname (anp_To rule)) rules)))"
proof (induction rules arbitrary: E M X)
  case Nil
  then show ?case by (simp add: spec_failures_def)
next
  case (Cons rule rules)
  show ?case
    by (auto simp: resolveTo_eq Cons.IH convertPorts_eq spec_rule_def spec_failures_def
             split: sum.splits)
qed

lemma egressLoop_initial:
  "egressLoop q R (anp_Egress (anp_Spec anp)) ([], Map.empty, []) =
     (map (spec_rule R) (anp_Egress (anp_Spec anp)),
      spec_resolved R (hostnames anp),
      spec_failures q R (hostnames anp))"
  by (auto simp: egressLoop_eq spec_resolved_def hostnames_def split: sum.splits)

lemma Reconcile_found:
  assumes "customPolicies c req = Some anp"
  shows "Reconcile q R now flt c req =
     (case getCustomErr flt of
        Some err \<Rightarrow> (Inl (''failed to get NetworkPolicy: '' @ err), c)
      | None \<Rightarrow>
          (case setOwnerErr flt of
             Some err \<Rightarrow> (Inl (''failed to set owner reference: '' @ err), c)
           | None \<Rightarrow>
               (case applyDesired flt c (spec_desired R anp) of
                  Inl err \<Rightarrow> (Inl err, c)
                | Inr c1 \<Rightarrow>
                    (case statusUpdateErr flt of
                       Some err \<Rightarrow> (Inl (''failed to update status: '' @ err), c1)
                     | None \<Rightarrow>
                         (Inr \<lparr>RequeueAfter = requeueInterval (anp_Spec anp)\<rparr>,
                          c1\<lparr>customPolicies :=
                               (customPolicies c1)
                                 ((anp_Namespace anp, anp_Name anp) \<mapsto>
                                    anp\<lparr>anp_Status :=
                                          \<lparr>Conditions =
                                             setCondition (Conditions (anp_Status anp))
                                               (readyCondition (anp_Generation anp) now
                                                  (spec_failures q R (hostnames anp))),
                                           ResolvedAddresses =
                                             spec_resolved R (hostnames anp)\<rparr>\<rparr>)\<rparr>)))))"
  using assms
  by (simp add: Reconcile_def egressLoop_initial spec_desired_def split: option.splits)

lemma applyDesired_establishes:
  assumes "applyDesired flt c d = Inr c1"
  shows "\<exists>np. standardPolicies c1 (np_Namespace d, np_Name d) = Some np \<and>
              np_Spec np = np_Spec d"
    and "customPolicies c1 = customPolicies c"
  using assms
  by (auto simp: applyDesired_def Let_def split: option.splits if_splits)

lemma applyDesired_stable:
  assumes "standardPolicies c (np_Namespace d, np_Name d) = Some np"
    and "np_Spec np = np_Spec d"
  shows "applyDesired flt c d = Inr c \<or> (\<exists>e. applyDesired flt c d = Inl e)"
  using assms by (auto simp: applyDesired_def Let_def split: option.splits)

lemma applyDesired_noFaults: "\<exists>c1. applyDesired noFaults c d = Inr c1"
  by (auto simp: applyDesired_def noFaults_def Let_def split: option.splits)

lemma spec_failures_empty: "spec_failures q R hs = [] \<longleftrightarrow> \<not> (\<exists>h\<in>set hs. isl (R h))"
  by (induction hs) (auto simp: spec_failures_def split: sum.splits)

text \<open>
  Claim C7. For every source policy and every resolver, a pass whose client calls succeed
  returns without error, whether or not hostnames fail to resolve, and the standard policy
  then stored has one egress rule per source rule, in order: its ports are the source
  rule's ports, field by field, and its peers are one address block per address of each
  hostname that resolved, in order, and none for a hostname that failed or resolved to no
  address.
\<close>

theorem Reconcile_egress:
  assumes "customPolicies c req = Some anp"
  shows "\<exists>c' np.
           Reconcile q R now noFaults c req =
             (Inr \<lparr>RequeueAfter = requeueInterval (anp_Spec anp)\<rparr>, c') \<and>
           standardPolicies c' (anp_Namespace anp, anp_Name anp) = Some np \<and>
           np_Egress (np_Spec np) = map (spec_rule R) (anp_Egress (anp_Spec anp))"
proof -
  obtain c1 where a: "applyDesired noFaults c (spec_desired R anp) = Inr c1"
    using applyDesired_noFaults by blast
  from applyDesired_establishes(1)[OF a]
  obtain np where np: "standardPolicies c1 (anp_Namespace anp, anp_Name anp) = Some np"
    and sp: "np_Spec np = np_Spec (spec_desired R anp)"
    by (auto simp: spec_desired_def)
  from sp have "np_Egress (np_Spec np) = map (spec_rule R) (anp_Egress (anp_Spec anp))"
    by (simp add: spec_desired_def)
  with np a show ?thesis
    by (simp add: Reconcile_found[OF assms] noFaults_def)
qed

theorem Reconcile_egress_witness:
  "customPolicies exampleCluster (''default'', ''test-policy'') = Some examplePolicy \<and>
   fst (Reconcile quotePlain exampleResolver 0 noFaults exampleCluster
          (''default'', ''test-policy'')) = Inr \<lparr>RequeueAfter = 300000000000\<rparr> \<and>
   map_option (\<lambda>np. np_Egress (np_Spec np))
     (standardPolicies
        (snd (Reconcile quotePlain exampleResolver 0 noFaults exampleCluster
                (''default'', ''test-policy'')))
        (''default'', ''test-policy'')) =
   Some [\<lparr>np_Ports =
            [\<lparr>np_Protocol = Some ''TCP'', np_Port = Some (IntVal 443), np_EndPort = None\<rparr>],
          np_To =
            [\<lparr>peer_PodSelector = None, peer_NamespaceSelector = None,
              peer_IPBlock = Some \<lparr>CIDR = ''93.184.216.34/32'', Except = []\<rparr>\<rparr>,
             \<lparr>peer_PodSelector = None, peer_NamespaceSelector = None,
              peer_IPBlock = Some \<lparr>CIDR = ''93.184.216.35/32'', Except = []\<rparr>\<rparr>,
             \<lparr>peer_PodSelector = None, peer_NamespaceSelector = None,
              peer_IPBlock = Some \<lparr>CIDR = ''93.184.216.36/32'', Except = []\<rparr>\<rparr>]\<rparr>]"
proof -
  have src: "customPolicies exampleCluster (''default'', ''test-policy'') = Some examplePolicy"
    by (simp add: exampleCluster_def)
  have key: "(anp_Namespace examplePolicy, anp_Name examplePolicy) = (''default'', ''test-policy'')"
    by (simp add: examplePolicy_def)
  have iv: "requeueInterval (anp_Spec examplePolicy) = 300000000000"
    by (simp add: requeueInterval_def examplePolicy_def defaultResolutionInterval_def
        minResolutionInterval_def)
  have rules: "map (spec_rule exampleResolver) (anp_Egress (anp_Spec examplePolicy)) =
    ([\<lparr>np_Ports =
            [\<lparr>np_Protocol = Some ''TCP'', np_Port = Some (IntVal 443), np_EndPort = None\<rparr>],
          np_To =
            [\<lparr>peer_PodSelector = None, peer_NamespaceSelector = None,
              peer_IPBlock = Some \<lparr>CIDR = ''93.184.216.34/32'', Except = []\<rparr>\<rparr>,
             \<lparr>peer_PodSelector = None, peer_NamespaceSelector = None,
              peer_IPBlock = Some \<lparr>CIDR = ''93.184.216.35/32'', Except = []\<rparr>\<rparr>,
             \<lparr>peer_PodSelector = None, peer_NamespaceSelector = None,
              peer_IPBlock = Some \<lparr>CIDR = ''93.184.216.36/32'', Except = []\<rparr>\<rparr>]\<rparr>] :: (string \<times> string) list NetworkPolicyEgressRule list)"
    by code_simp
  from Reconcile_egress[OF src, of quotePlain exampleResolver 0]
  obtain c' np where
    r: "Reconcile quotePlain exampleResolver 0 noFaults exampleCluster
          (''default'', ''test-policy'') =
        (Inr \<lparr>RequeueAfter = requeueInterval (anp_Spec examplePolicy)\<rparr>, c')"
    and s: "standardPolicies c' (anp_Namespace examplePolicy, anp_Name examplePolicy) = Some np"
    and e: "np_Egress (np_Spec np) =
            map (spec_rule exampleResolver) (anp_Egress (anp_Spec examplePolicy))"
    by blast
  from r s e src show ?thesis
    unfolding key iv rules by simp
qed


lemma setCondition_upsert:
  "setCondition old c =
     takeWhile (\<lambda>e. cond_Type e \<noteq> cond_Type c) old @
     c\<lparr>LastTransitionTime :=
         (case find (\<lambda>e. cond_Type e = cond_Type c) old of
            None \<Rightarrow> LastTransitionTime c
          | Some e \<Rightarrow>
              if cond_Status e = cond_Status c then LastTransitionTime e
              else LastTransitionTime c)\<rparr> #
     drop 1 (dropWhile (\<lambda>e. cond_Type e \<noteq> cond_Type c) old)"
  by (induction old) auto

lemma joinSpace_concat:
  "joinSpace xs = (case xs of [] \<Rightarrow> [] | x # ys \<Rightarrow> x @ concat (map (\<lambda>y. '' '' @ y) ys))"
  by (induction xs rule: joinSpace.induct) auto

lemma filter_upsert:
  assumes "length (filter P old) \<le> 1" and "P c"
  shows "filter P (takeWhile (\<lambda>e. \<not> P e) old @ c # drop 1 (dropWhile (\<lambda>e. \<not> P e) old)) = [c]"
  using assms by (induction old) (auto split: if_splits)

text \<open>
  Claim C8. After a pass on an existing source policy that returns without error, the
  stored object is the source policy with a new status. Its \<open>resolvedAddresses\<close> is
  exactly the map of the policy's hostnames that resolved on this pass (the previous map
  is discarded). Its conditions are the previous ones with the first \<open>Ready\<close> condition
  replaced in place by the new one, or with the new one appended when there was none; if
  the previous status held at most one \<open>Ready\<close> condition, the new status holds exactly
  one. The new condition has status \<open>False\<close>, reason \<open>ResolutionFailed\<close> and as message
  the failure texts of all failed resolutions, in order, separated by spaces between
  brackets, if some hostname failed, and status \<open>True\<close> with reason \<open>Reconciled\<close>
  otherwise; its transition time is that of the replaced condition when the status is the
  same, and the time of the pass otherwise.
\<close>

theorem Reconcile_status:
  assumes "customPolicies c req = Some anp"
    and "Reconcile q R now flt c req = (Inr res, c')"
  shows "\<exists>anp' cnd.
           customPolicies c' (anp_Namespace anp, anp_Name anp) = Some anp' \<and>
           anp'\<lparr>anp_Status := anp_Status anp\<rparr> = anp \<and>
           ResolvedAddresses (anp_Status anp') = spec_resolved R (hostnames anp) \<and>
           Conditions (anp_Status anp') =
             takeWhile (\<lambda>e. cond_Type e \<noteq> ''Ready'') (Conditions (anp_Status anp)) @
             cnd # drop 1 (dropWhile (\<lambda>e. cond_Type e \<noteq> ''Ready'')
                             (Conditions (anp_Status anp))) \<and>
           (length (filter (\<lambda>e. cond_Type e = ''Ready'') (Conditions (anp_Status anp))) \<le> 1
              \<longrightarrow> filter (\<lambda>e. cond_Type e = ''Ready'') (Conditions (anp_Status anp')) = [cnd]) \<and>
           cond_Type cnd = ''Ready'' \<and>
           ObservedGeneration cnd = anp_Generation anp \<and>
           LastTransitionTime cnd =
             (case find (\<lambda>e. cond_Type e = ''Ready'') (Conditions (anp_Status anp)) of
                None \<Rightarrow> now
              | Some e \<Rightarrow> if cond_Status e = cond_Status cnd then LastTransitionTime e else now) \<and>
           (if \<exists>h\<in>set (hostnames anp). isl (R h)
            then cond_Status cnd = ''False'' \<and> Reason cnd = ''ResolutionFailed'' \<and>
                 Message cnd =
                   ''failed to resolve some hostnames: ['' @
                   (case spec_failures q R (hostnames anp) of
                      [] \<Rightarrow> []
                    | x # xs \<Rightarrow> x @ concat (map (\<lambda>y. '' '' @ y) xs)) @ '']''
            else cond_Status cnd = ''True'' \<and> Reason cnd = ''Reconciled'' \<and>
                 Message cnd = ''All hostnames resolved successfully'')"
proof -
  let ?old = "Conditions (anp_Status anp)"
  let ?ready = "readyCondition (anp_Generation anp) now (spec_failures q R (hostnames anp))"
  let ?t = "case find (\<lambda>e. cond_Type e = cond_Type ?ready) ?old of
              None \<Rightarrow> LastTransitionTime ?ready
            | Some e \<Rightarrow>
                if cond_Status e = cond_Status ?ready then LastTransitionTime e
                else LastTransitionTime ?ready"
  let ?cnd = "?ready\<lparr>LastTransitionTime := ?t\<rparr>"
  let ?anp' = "anp\<lparr>anp_Status :=
                  \<lparr>Conditions = setCondition ?old ?ready,
                   ResolvedAddresses = spec_resolved R (hostnames anp)\<rparr>\<rparr>"
  from assms(2) have stored: "customPolicies c' (anp_Namespace anp, anp_Name anp) = Some ?anp'"
    unfolding Reconcile_found[OF assms(1)]
    by (auto split: option.splits sum.splits)
  have ty: "cond_Type ?ready = ''Ready''"
    by (simp add: readyCondition_def conditionTypeReady_def)
  have lt: "LastTransitionTime ?ready = now" by (simp add: readyCondition_def)
  have conds: "Conditions (anp_Status ?anp') =
      takeWhile (\<lambda>e. cond_Type e \<noteq> ''Ready'') ?old @
      ?cnd # drop 1 (dropWhile (\<lambda>e. cond_Type e \<noteq> ''Ready'') ?old)"
    using setCondition_upsert[of ?old ?ready] unfolding ty by simp
  have one: "length (filter (\<lambda>e. cond_Type e = ''Ready'') ?old) \<le> 1 \<longrightarrow>
      filter (\<lambda>e. cond_Type e = ''Ready'') (Conditions (anp_Status ?anp')) = [?cnd]"
    unfolding conds
    using filter_upsert[of "\<lambda>e. cond_Type e = ''Ready''" ?old ?cnd] ty by simp
  have time: "LastTransitionTime ?cnd =
      (case find (\<lambda>e. cond_Type e = ''Ready'') ?old of
         None \<Rightarrow> now
       | Some e \<Rightarrow> if cond_Status e = cond_Status ?cnd then LastTransitionTime e else now)"
    unfolding ty lt by (simp split: option.splits)
  have props: "if \<exists>h\<in>set (hostnames anp). isl (R h)
            then cond_Status ?cnd = ''False'' \<and> Reason ?cnd = ''ResolutionFailed'' \<and>
                 Message ?cnd =
                   ''failed to resolve some hostnames: ['' @
                   (case spec_failures q R (hostnames anp) of
                      [] \<Rightarrow> []
                    | x # xs \<Rightarrow> x @ concat (map (\<lambda>y. '' '' @ y) xs)) @ '']''
            else cond_Status ?cnd = ''True'' \<and> Reason ?cnd = ''Reconciled'' \<and>
                 Message ?cnd = ''All hostnames resolved successfully''"
    using spec_failures_empty[of q R "hostnames anp"]
      joinSpace_concat[of "spec_failures q R (hostnames anp)"]
    by (auto simp: readyCondition_def fmt_v_def)
  have gen: "ObservedGeneration ?cnd = anp_Generation anp" by (simp add: readyCondition_def)
  have rest: "?anp'\<lparr>anp_Status := anp_Status anp\<rparr> = anp" by simp
  have ra: "ResolvedAddresses (anp_Status ?anp') = spec_resolved R (hostnames anp)" by simp
  have ty': "cond_Type ?cnd = ''Ready''" using ty by simp
  show ?thesis
    apply (rule exI[of _ ?anp'])
    apply (rule exI[of _ ?cnd])
    using stored rest ra conds one ty' gen time props by blast
qed

theorem Reconcile_status_witness:
  "fst (Reconcile quotePlain exampleResolver 0 noFaults exampleCluster
          (''default'', ''test-policy'')) = Inr \<lparr>RequeueAfter = 300000000000\<rparr> \<and>
   map_option (\<lambda>a. ResolvedAddresses (anp_Status a) ''api.example.com'')
     (customPolicies
        (snd (Reconcile quotePlain exampleResolver 0 noFaults exampleCluster
                (''default'', ''test-policy'')))
        (''default'', ''test-policy'')) =
     Some (Some [''93.184.216.35/32'', ''93.184.216.36/32'']) \<and>
   map_option (\<lambda>a. ResolvedAddresses (anp_Status a) ''down.example.com'')
     (customPolicies
        (snd (Reconcile quotePlain exampleResolver 0 noFaults exampleCluster
                (''default'', ''test-policy'')))
        (''default'', ''test-policy'')) = Some None \<and>
   map_option (\<lambda>a. Conditions (anp_Status a))
     (customPolicies
        (snd (Reconcile quotePlain exampleResolver 0 noFaults exampleCluster
                (''default'', ''test-policy'')))
        (''default'', ''test-policy'')) =
     Some [\<lparr>cond_Type = ''Ready'', cond_Status = ''False'', ObservedGeneration = 1,
            LastTransitionTime = 0, Reason = ''ResolutionFailed'',
            Message =
              ''failed to resolve some hostnames: [failed to resolve '' @
              quotePlain ''down.example.com'' @ '': no such host]''\<rparr>] \<and>
   map_option (\<lambda>a. Conditions (anp_Status a))
     (customPolicies
        (snd (Reconcile quotePlain (MockResolver Map.empty (Some ''timeout'')) 300000000000
                noFaults
                (snd (Reconcile quotePlain exampleResolver 0 noFaults exampleCluster
                        (''default'', ''test-policy'')))
                (''default'', ''test-policy'')))
        (''default'', ''test-policy'')) =
     Some [\<lparr>cond_Type = ''Ready'', cond_Status = ''False'', ObservedGeneration = 1,
            LastTransitionTime = 0, Reason = ''ResolutionFailed'',
            Message =
              ''failed to resolve some hostnames: [failed to resolve '' @
              quotePlain ''example.com'' @ '': timeout failed to resolve '' @
              quotePlain ''down.example.com'' @ '': timeout failed to resolve '' @
              quotePlain ''api.example.com'' @ '': timeout]''\<rparr>]"
proof -
  let ?key = "(''default'', ''test-policy'')"
  let ?down = "MockResolver Map.empty (Some ''timeout'')"
  let ?r1 = "Reconcile quotePlain exampleResolver 0 noFaults exampleCluster ?key"
  let ?r2 = "Reconcile quotePlain ?down 300000000000 noFaults (snd ?r1) ?key"
  let ?c1 = "\<lparr>cond_Type = ''Ready'', cond_Status = ''False'', ObservedGeneration = 1,
            LastTransitionTime = 0, Reason = ''ResolutionFailed'',
            Message =
              ''failed to resolve some hostnames: [failed to resolve '' @
              quotePlain ''down.example.com'' @ '': no such host]''\<rparr>"
  let ?c2 = "\<lparr>cond_Type = ''Ready'', cond_Status = ''False'', ObservedGeneration = 1,
            LastTransitionTime = 0, Reason = ''ResolutionFailed'',
            Message =
              ''failed to resolve some hostnames: [failed to resolve '' @
              quotePlain ''example.com'' @ '': timeout failed to resolve '' @
              quotePlain ''down.example.com'' @ '': timeout failed to resolve '' @
              quotePlain ''api.example.com'' @ '': timeout]''\<rparr>"
  have src: "customPolicies exampleCluster ?key = Some examplePolicy"
    by (simp add: exampleCluster_def)
  have key: "(anp_Namespace examplePolicy, anp_Name examplePolicy) = ?key"
    by (simp add: examplePolicy_def)
  have gen: "anp_Generation examplePolicy = 1" by (simp add: examplePolicy_def)
  have old: "Conditions (anp_Status examplePolicy) = []" by (simp add: examplePolicy_def)
  have ok1: "fst ?r1 = Inr \<lparr>RequeueAfter = 300000000000\<rparr>" by code_simp
  then have run1: "?r1 = (Inr \<lparr>RequeueAfter = 300000000000\<rparr>, snd ?r1)"
    by (metis prod.collapse)
  have ok2: "fst ?r2 = Inr \<lparr>RequeueAfter = 300000000000\<rparr>" by code_simp
  then have run2: "?r2 = (Inr \<lparr>RequeueAfter = 300000000000\<rparr>, snd ?r2)"
    by (metis prod.collapse)
  have a1: "spec_resolved exampleResolver (hostnames examplePolicy) ''api.example.com'' =
            Some [''93.184.216.35/32'', ''93.184.216.36/32'']"
    by code_simp
  have a2: "spec_resolved exampleResolver (hostnames examplePolicy) ''down.example.com'' = None"
    by code_simp
  have fl1: "\<exists>h\<in>set (hostnames examplePolicy). isl (exampleResolver h)"
    by code_simp
  have fl2: "\<exists>h\<in>set (hostnames examplePolicy). isl (?down h)"
    by code_simp
  have msg1: "''failed to resolve some hostnames: ['' @
      (case spec_failures quotePlain exampleResolver (hostnames examplePolicy) of
         [] \<Rightarrow> []
       | x # xs \<Rightarrow> x @ concat (map (\<lambda>y. '' '' @ y) xs)) @ '']'' = Message ?c1"
    by code_simp
  have msg2: "''failed to resolve some hostnames: ['' @
      (case spec_failures quotePlain ?down (hostnames examplePolicy) of
         [] \<Rightarrow> []
       | x # xs \<Rightarrow> x @ concat (map (\<lambda>y. '' '' @ y) xs)) @ '']'' = Message ?c2"
    by code_simp
  from Reconcile_status[OF src run1]
  obtain anp1 cnd1 where
    st1: "customPolicies (snd ?r1) (anp_Namespace examplePolicy, anp_Name examplePolicy) =
            Some anp1"
    and same1: "anp1\<lparr>anp_Status := anp_Status examplePolicy\<rparr> = examplePolicy"
    and ra1: "ResolvedAddresses (anp_Status anp1) =
              spec_resolved exampleResolver (hostnames examplePolicy)"
    and cs1: "Conditions (anp_Status anp1) =
              takeWhile (\<lambda>e. cond_Type e \<noteq> ''Ready'') (Conditions (anp_Status examplePolicy)) @
              cnd1 # drop 1 (dropWhile (\<lambda>e. cond_Type e \<noteq> ''Ready'')
                               (Conditions (anp_Status examplePolicy)))"
    and ty1: "cond_Type cnd1 = ''Ready''"
    and og1: "ObservedGeneration cnd1 = anp_Generation examplePolicy"
    and lt1: "LastTransitionTime cnd1 =
              (case find (\<lambda>e. cond_Type e = ''Ready'') (Conditions (anp_Status examplePolicy)) of
                 None \<Rightarrow> 0
               | Some e \<Rightarrow> if cond_Status e = cond_Status cnd1 then LastTransitionTime e else 0)"
    and if1: "if \<exists>h\<in>set (hostnames examplePolicy). isl (exampleResolver h)
            then cond_Status cnd1 = ''False'' \<and> Reason cnd1 = ''ResolutionFailed'' \<and>
                 Message cnd1 =
                   ''failed to resolve some hostnames: ['' @
                   (case spec_failures quotePlain exampleResolver (hostnames examplePolicy) of
                      [] \<Rightarrow> []
                    | x # xs \<Rightarrow> x @ concat (map (\<lambda>y. '' '' @ y) xs)) @ '']''
            else cond_Status cnd1 = ''True'' \<and> Reason cnd1 = ''Reconciled'' \<and>
                 Message cnd1 = ''All hostnames resolved successfully''"
    by blast
  from if1 fl1 have f1: "cond_Status cnd1 = ''False''" "Reason cnd1 = ''ResolutionFailed''"
    "Message cnd1 = Message ?c1"
    unfolding msg1 by simp_all
  from ty1 og1 lt1 f1 have c1: "cnd1 = ?c1"
    unfolding old gen by (cases cnd1) simp
  from cs1 c1 have conds1: "Conditions (anp_Status anp1) = [?c1]"
    unfolding old by simp
  from arg_cong[OF same1, of anp_Spec]
  have spec1: "anp_Spec anp1 = anp_Spec examplePolicy" by simp
  from arg_cong[OF same1, of anp_Namespace] arg_cong[OF same1, of anp_Name] key
  have id1: "(anp_Namespace anp1, anp_Name anp1) = ?key" by simp
  from arg_cong[OF same1, of anp_Generation] gen
  have gen1: "anp_Generation anp1 = 1" by simp
  have hs1: "hostnames anp1 = hostnames examplePolicy"
    by (simp add: hostnames_def spec1)
  from st1 have src2: "customPolicies (snd ?r1) ?key = Some anp1"
    unfolding key .
  from Reconcile_status[OF src2 run2]
  obtain anp2 cnd2 where
    st2: "customPolicies (snd ?r2) (anp_Namespace anp1, anp_Name anp1) = Some anp2"
    and cs2: "Conditions (anp_Status anp2) =
              takeWhile (\<lambda>e. cond_Type e \<noteq> ''Ready'') (Conditions (anp_Status anp1)) @
              cnd2 # drop 1 (dropWhile (\<lambda>e. cond_Type e \<noteq> ''Ready'')
                               (Conditions (anp_Status anp1)))"
    and ty2: "cond_Type cnd2 = ''Ready''"
    and og2: "ObservedGeneration cnd2 = anp_Generation anp1"
    and lt2: "LastTransitionTime cnd2 =
              (case find (\<lambda>e. cond_Type e = ''Ready'') (Conditions (anp_Status anp1)) of
                 None \<Rightarrow> 300000000000
               | Some e \<Rightarrow>
                   if cond_Status e = cond_Status cnd2 then LastTransitionTime e
                   else 300000000000)"
    and if2: "if \<exists>h\<in>set (hostnames anp1). isl (?down h)
            then cond_Status cnd2 = ''False'' \<and> Reason cnd2 = ''ResolutionFailed'' \<and>
                 Message cnd2 =
                   ''failed to resolve some hostnames: ['' @
                   (case spec_failures quotePlain ?down (hostnames anp1) of
                      [] \<Rightarrow> []
                    | x # xs \<Rightarrow> x @ concat (map (\<lambda>y. '' '' @ y) xs)) @ '']''
            else cond_Status cnd2 = ''True'' \<and> Reason cnd2 = ''Reconciled'' \<and>
                 Message cnd2 = ''All hostnames resolved successfully''"
    by blast
  from if2 fl2 have f2: "cond_Status cnd2 = ''False''" "Reason cnd2 = ''ResolutionFailed''"
    "Message cnd2 = Message ?c2"
    unfolding hs1 msg2 by simp_all
  from lt2 f2(1) have lt2': "LastTransitionTime cnd2 = 0"
    unfolding conds1 by simp
  from ty2 og2 lt2' f2 have c2: "cnd2 = ?c2"
    unfolding gen1 by (cases cnd2) simp
  from cs2 c2 have conds2: "Conditions (anp_Status anp2) = [?c2]"
    unfolding conds1 by simp
  from ok1 st1 ra1 a1 a2 conds1 st2 conds2 show ?thesis
    unfolding key id1 by simp
qed

text \<open>
  Claim C9. After a pass that returned without error, a second pass for the same request
  with the same resolver, at any time and whatever the outcome of its own client calls,
  leaves the creation counter, the update counter and the stored standard policies as they
  are: it performs no create and no update.
\<close>

theorem Reconcile_idempotent:
  assumes "Reconcile q R now1 flt1 c req = (Inr res1, c1)"
  shows "networkPolicyCreations (snd (Reconcile q R now2 flt2 c1 req)) =
           networkPolicyCreations c1 \<and>
         dnsNameChanges (snd (Reconcile q R now2 flt2 c1 req)) = dnsNameChanges c1 \<and>
         standardPolicies (snd (Reconcile q R now2 flt2 c1 req)) = standardPolicies c1"
proof (cases "customPolicies c req")
  case None
  with assms have c1: "c1 = c\<lparr>networkPolicyDeletions := networkPolicyDeletions c + 1\<rparr>"
    by (auto simp: Reconcile_def split: option.splits)
  with None show ?thesis
    by (auto simp: Reconcile_def split: option.splits)
next
  case (Some anp)
  let ?key = "(anp_Namespace anp, anp_Name anp)"
  let ?st1 = "\<lparr>Conditions =
                 setCondition (Conditions (anp_Status anp))
                   (readyCondition (anp_Generation anp) now1
                      (spec_failures q R (hostnames anp))),
               ResolvedAddresses = spec_resolved R (hostnames anp)\<rparr>"
  from assms obtain ca where ap: "applyDesired flt1 c (spec_desired R anp) = Inr ca"
    and c1: "c1 = ca\<lparr>customPolicies := (customPolicies ca)(?key \<mapsto> anp\<lparr>anp_Status := ?st1\<rparr>)\<rparr>"
    unfolding Reconcile_found[OF Some]
    by (auto split: option.splits sum.splits)
  from applyDesired_establishes[OF ap]
  obtain np where np: "standardPolicies ca (np_Namespace (spec_desired R anp),
                                            np_Name (spec_desired R anp)) = Some np"
    and sp: "np_Spec np = np_Spec (spec_desired R anp)"
    and cu: "customPolicies ca = customPolicies c"
    by blast
  obtain anp2 where a2: "customPolicies c1 req = Some anp2"
    and d2: "spec_desired R anp2 = spec_desired R anp"
    using Some cu c1 by (cases "req = ?key") (auto simp: spec_desired_def)
  from np c1 d2 have "standardPolicies c1 (np_Namespace (spec_desired R anp2),
                                          np_Name (spec_desired R anp2)) = Some np"
    by simp
  from applyDesired_stable[OF this, of flt2] sp d2
  have "applyDesired flt2 c1 (spec_desired R anp2) = Inr c1 \<or>
        (\<exists>e. applyDesired flt2 c1 (spec_desired R anp2) = Inl e)"
    by simp
  then show ?thesis
    unfolding Reconcile_found[OF a2]
    by (auto split: option.splits sum.splits)
qed

theorem Reconcile_idempotent_witness:
  "fst (Reconcile quotePlain exampleResolver 0 noFaults exampleCluster
          (''default'', ''test-policy'')) = Inr \<lparr>RequeueAfter = 300000000000\<rparr> \<and>
   networkPolicyCreations
     (snd (Reconcile quotePlain exampleResolver 0 noFaults exampleCluster
             (''default'', ''test-policy''))) = 1 \<and>
   networkPolicyCreations
     (snd (Reconcile quotePlain exampleResolver 300000000000 noFaults
             (snd (Reconcile quotePlain exampleResolver 0 noFaults exampleCluster
                     (''default'', ''test-policy'')))
             (''default'', ''test-policy''))) = 1 \<and>
   dnsNameChanges
     (snd (Reconcile quotePlain exampleResolver 0 noFaults exampleCluster
             (''default'', ''test-policy''))) = 0 \<and>
   dnsNameChanges
     (snd (Reconcile quotePlain exampleResolver 300000000000 noFaults
             (snd (Reconcile quotePlain exampleResolver 0 noFaults exampleCluster
                     (''default'', ''test-policy'')))
             (''default'', ''test-policy''))) = 0"
proof -
  let ?r = "Reconcile quotePlain exampleResolver 0 noFaults exampleCluster
              (''default'', ''test-policy'')"
  have ok: "fst ?r = Inr \<lparr>RequeueAfter = 300000000000\<rparr>" by code_simp
  then have run: "?r = (Inr \<lparr>RequeueAfter = 300000000000\<rparr>, snd ?r)"
    by (metis prod.collapse)
  have n1: "networkPolicyCreations (snd ?r) = 1" by code_simp
  have d1: "dnsNameChanges (snd ?r) = 0" by code_simp
  from Reconcile_idempotent[OF run, of 300000000000 noFaults] ok n1 d1
  show ?thesis by simp
qed


end
